theory Spec2Isabelle
  imports Complex_Main "HOL-Library.Multiset"
begin

section \<open>JSON documents\<close>

text \<open>
  Both programs exchange text frames that hold JSON documents. The encoder and the decoder
  (\<^verbatim>\<open>json.dumps\<close>, \<^verbatim>\<open>json.loads\<close>) are library code: the model takes them as
  parameters \<open>dumps\<close> and \<open>loads\<close>, the latter returning \<open>None\<close> where Python raises
  \<^verbatim>\<open>JSONDecodeError\<close>. A decoded object is the list of its items; a decoded dict has one
  item per key, and \<open>map_of\<close> is its lookup.
\<close>

datatype json =
    JNull
  | JBool bool
  | JNum real
  | JStr string
  | JArr "json list"
  | JObj "(string \<times> json) list"

text \<open>\<^verbatim>\<open>isinstance(data, dict) and "status" in data\<close>, with \<^verbatim>\<open>data["status"]\<close> when it holds.\<close>

fun status_field :: "json \<Rightarrow> json option" where
  "status_field (JObj kv) = map_of kv ''status''"
| "status_field _ = None"

fun error_field :: "json \<Rightarrow> json option" where
  "error_field (JObj kv) = map_of kv ''error''"
| "error_field _ = None"

definition status_message :: "string \<Rightarrow> json" where
  "status_message s = JObj [(''status'', JStr s)]"

definition error_message :: "string \<Rightarrow> json" where
  "error_message s = JObj [(''error'', JStr s)]"

section \<open>client.py: the consumer\<close>

datatype client_log =
    Connected string
  | ServerStatus json
  | ReceivedTrade json
  | ReceivedSoFar int
  | ConnectionToServerClosed
  | ClientTaskCancelled
  | TotalTradesReceived int

datatype client_exn = JSONDecodeError | ZeroDivisionError

datatype flow = Continue | Break | Raise client_exn

record client =
  message_count :: int
  client_logs :: "client_log list"

definition client_info :: "client_log \<Rightarrow> client \<Rightarrow> client" where
  "client_info l c = c\<lparr>client_logs := client_logs c @ [l]\<rparr>"

text \<open>
  One pass of the body of \<^verbatim>\<open>while True\<close> in \<^verbatim>\<open>listen_to_trades\<close>, after
  \<^verbatim>\<open>websocket.recv()\<close> has returned \<open>message\<close> (client.py, lines 20 to 30). The counter
  is incremented before the message is decoded. \<^verbatim>\<open>message_count % summary_interval\<close>
  raises \<^verbatim>\<open>ZeroDivisionError\<close> when the interval is zero; Python's \<^verbatim>\<open>%\<close> on integers
  is the floored \<open>mod\<close> of \<open>int\<close>.
\<close>

definition on_message ::
  "(string \<Rightarrow> json option) \<Rightarrow> int \<Rightarrow> int \<Rightarrow> string \<Rightarrow> client \<Rightarrow> flow \<times> client" where
  "on_message loads show_first_n summary_interval message c =
     (let c1 = c\<lparr>message_count := message_count c + 1\<rparr> in
      case loads message of
        None \<Rightarrow> (Raise JSONDecodeError, c1)
      | Some data \<Rightarrow>
          (case status_field data of
             Some s \<Rightarrow>
               (let c2 = client_info (ServerStatus s) c1 in
                if s = JStr ''Replay finished.'' then (Break, c2) else (Continue, c2))
           | None \<Rightarrow>
               if message_count c1 \<le> show_first_n
               then (Continue, client_info (ReceivedTrade data) c1)
               else if summary_interval = 0 then (Raise ZeroDivisionError, c1)
               else if message_count c1 mod summary_interval = 0
               then (Continue, client_info (ReceivedSoFar (message_count c1)) c1)
               else (Continue, c1)))"

text \<open>
  What \<^verbatim>\<open>await websocket.recv()\<close> does next: it returns a message, raises
  \<^verbatim>\<open>ConnectionClosed\<close>, or the task is cancelled while it waits.
\<close>

datatype recv = Message string | RecvConnectionClosed | RecvCancelled

datatype ending = Completed | Escaped client_exn | Waiting

definition log_total :: "client \<Rightarrow> client" where
  "log_total c = client_info (TotalTradesReceived (message_count c)) c"

text \<open>
  The loop with its \<^verbatim>\<open>except\<close> and \<^verbatim>\<open>finally\<close> clauses (client.py, lines 17 to 37).
  \<open>Waiting\<close>: no further event arrives and the client stays suspended in \<^verbatim>\<open>recv\<close>.
  \<open>Escaped e\<close>: \<open>e\<close> is caught by neither \<^verbatim>\<open>except\<close> clause, the \<^verbatim>\<open>finally\<close> clause
  runs and \<open>e\<close> leaves the function.
\<close>

fun listen_loop ::
  "(string \<Rightarrow> json option) \<Rightarrow> int \<Rightarrow> int \<Rightarrow> recv list \<Rightarrow> client \<Rightarrow> ending \<times> client" where
  "listen_loop loads n m [] c = (Waiting, c)"
| "listen_loop loads n m (RecvConnectionClosed # evs) c =
     (Completed, log_total (client_info ConnectionToServerClosed c))"
| "listen_loop loads n m (RecvCancelled # evs) c =
     (Completed, log_total (client_info ClientTaskCancelled c))"
| "listen_loop loads n m (Message msg # evs) c =
     (case on_message loads n m msg c of
        (Continue, c') \<Rightarrow> listen_loop loads n m evs c'
      | (Break, c') \<Rightarrow> (Completed, log_total c')
      | (Raise e, c') \<Rightarrow> (Escaped e, log_total c'))"

definition listen_to_trades ::
  "(string \<Rightarrow> json option) \<Rightarrow> string \<Rightarrow> int \<Rightarrow> int \<Rightarrow> recv list \<Rightarrow> ending \<times> client" where
  "listen_to_trades loads uri show_first_n summary_interval evs =
     listen_loop loads show_first_n summary_interval evs
       (client_info (Connected uri) \<lparr>message_count = 0, client_logs = []\<rparr>)"

text \<open>The messages the loop has taken from the connection when it stops.\<close>

fun consumed ::
  "(string \<Rightarrow> json option) \<Rightarrow> int \<Rightarrow> int \<Rightarrow> recv list \<Rightarrow> client \<Rightarrow> string list" where
  "consumed loads n m [] c = []"
| "consumed loads n m (RecvConnectionClosed # evs) c = []"
| "consumed loads n m (RecvCancelled # evs) c = []"
| "consumed loads n m (Message msg # evs) c =
     (case on_message loads n m msg c of
        (Continue, c') \<Rightarrow> msg # consumed loads n m evs c'
      | (Break, c') \<Rightarrow> [msg]
      | (Raise e, c') \<Rightarrow> [msg])"

definition is_status :: "(string \<Rightarrow> json option) \<Rightarrow> string \<Rightarrow> bool" where
  "is_status loads msg = (case loads msg of None \<Rightarrow> False | Some data \<Rightarrow> status_field data \<noteq> None)"

text \<open>A status message other than the one that ends the replay.\<close>

definition plain_status :: "(string \<Rightarrow> json option) \<Rightarrow> string \<Rightarrow> bool" where
  "plain_status loads msg =
     (case loads msg of
        None \<Rightarrow> False
      | Some data \<Rightarrow>
          (case status_field data of None \<Rightarrow> False | Some s \<Rightarrow> s \<noteq> JStr ''Replay finished.''))"

definition received ::
  "(string \<Rightarrow> json option) \<Rightarrow> string \<Rightarrow> int \<Rightarrow> int \<Rightarrow> recv list \<Rightarrow> string list" where
  "received loads uri show_first_n summary_interval evs =
     consumed loads show_first_n summary_interval evs
       (client_info (Connected uri) \<lparr>message_count = 0, client_logs = []\<rparr>)"

text \<open>A decoder for the examples: it knows four texts and rejects every other.\<close>

definition example_loads :: "string \<Rightarrow> json option" where
  "example_loads s =
     (if s = ''loaded'' then Some (status_message ''Data loaded. Starting replay.'')
      else if s = ''finished'' then Some (status_message ''Replay finished.'')
      else if s = ''failed'' then Some (error_message ''Could not read trade data.'')
      else if s = ''trade'' then Some (JObj [(''timestamp'', JStr ''2024-01-01 09:00:00''), (''price'', JNum 101)])
      else None)"

section \<open>server.py: the dataset and its tick groups\<close>

text \<open>
  A row of the table after \<^verbatim>\<open>pd.to_datetime\<close> (server.py, line 55): its timestamp in
  nanoseconds since the epoch, \<open>None\<close> for pandas' missing value \<^verbatim>\<open>NaT\<close> (what a null
  cell converts to), and the other columns.
\<close>

record 'a row =
  timestamp :: "int option"
  payload :: 'a

text \<open>
  \<^verbatim>\<open>sort_values(by="timestamp").reset_index(drop=True)\<close> (line 56): ascending, missing
  values last. pandas' default sort is not stable; the model takes the stable one, and
  nothing below depends on the order of rows that share a timestamp.
\<close>

definition sort_values :: "'a row list \<Rightarrow> 'a row list" where
  "sort_values df =
     sort_key (\<lambda>r. case timestamp r of Some t \<Rightarrow> t | None \<Rightarrow> 0) (filter (\<lambda>r. timestamp r \<noteq> None) df)
     @ filter (\<lambda>r. timestamp r = None) df"

text \<open>
  \<^verbatim>\<open>trades_df.groupby("timestamp")\<close> (lines 21 to 24) with pandas' defaults
  \<^verbatim>\<open>sort=True\<close> and \<^verbatim>\<open>dropna=True\<close>: one group per distinct timestamp, keys ascending,
  each group holding the rows of that key in table order; rows whose key is missing are in
  no group.
\<close>

definition group_keys :: "'a row list \<Rightarrow> int list" where
  "group_keys df = sort (remdups (List.map_filter timestamp df))"

definition groupby_timestamp :: "'a row list \<Rightarrow> (int \<times> 'a row list) list" where
  "groupby_timestamp df = map (\<lambda>k. (k, filter (\<lambda>r. timestamp r = Some k) df)) (group_keys df)"

text \<open>The queue's items: \<^verbatim>\<open>(timestamp, messages, len(group))\<close>; \<open>None\<close> is the end-of-stream marker.\<close>

type_synonym tick_group = "int \<times> string list \<times> nat"

text \<open>
  The items \<^verbatim>\<open>produce_trades\<close> puts on the queue, in order (lines 24 to 29);
  \<open>dumps_record\<close> is \<^verbatim>\<open>json.dumps(record, default=str)\<close> on a row's dict.
\<close>

definition tick_groups :: "('a row \<Rightarrow> string) \<Rightarrow> 'a row list \<Rightarrow> tick_group list" where
  "tick_groups dumps_record df =
     map (\<lambda>(ts, group). (ts, map dumps_record group, length group)) (groupby_timestamp df)"

fun group_count :: "tick_group \<Rightarrow> nat" where
  "group_count (ts, messages, n) = n"

fun group_messages :: "tick_group \<Rightarrow> string list" where
  "group_messages (ts, messages, n) = messages"

fun group_timestamp :: "tick_group \<Rightarrow> int" where
  "group_timestamp (ts, messages, n) = ts"

section \<open>server.py: the producer task and the bounded queue\<close>

text \<open>
  \<^verbatim>\<open>produce_trades\<close> is a coroutine: it runs until it has to wait, and it waits only in
  \<^verbatim>\<open>await queue.put(...)\<close> while the queue is full. The model is a machine whose control
  state says where the coroutine is suspended. \<^verbatim>\<open>asyncio.Queue(maxsize)\<close> is full when
  \<open>maxsize > 0\<close> and it holds \<open>maxsize\<close> items; with \<open>maxsize \<le> 0\<close> it is never full.
  \<open>enqueued\<close> records every item ever put, in order, and \<open>dequeued\<close> every item the
  handler has taken.
\<close>

datatype producer_log = ProducerStarting | ProducerWasCancelled | ProducerFinished

datatype producer_pc =
    NotStarted
  | AwaitPutItem tick_group "tick_group list"
  | AwaitPutMarker
  | Returned
  | CancelledOut

record producer =
  pc :: producer_pc
  queue :: "tick_group option list"
  maxsize :: int
  enqueued :: "tick_group option list"
  dequeued :: "tick_group option list"
  must_cancel :: bool
  producer_logs :: "producer_log list"

definition full :: "producer \<Rightarrow> bool" where
  "full p = (0 < maxsize p \<and> maxsize p \<le> int (length (queue p)))"

definition put_nowait :: "tick_group option \<Rightarrow> producer \<Rightarrow> producer" where
  "put_nowait x p = p\<lparr>queue := queue p @ [x], enqueued := enqueued p @ [x]\<rparr>"

definition producer_info :: "producer_log \<Rightarrow> producer \<Rightarrow> producer" where
  "producer_info l p = p\<lparr>producer_logs := producer_logs p @ [l]\<rparr>"

text \<open>The \<^verbatim>\<open>finally\<close> clause (lines 33 and 34), entered or resumed.\<close>

definition put_marker :: "producer \<Rightarrow> producer" where
  "put_marker p =
     (if full p then p\<lparr>pc := AwaitPutMarker\<rparr>
      else producer_info ProducerFinished ((put_nowait None p)\<lparr>pc := Returned\<rparr>))"

text \<open>The \<^verbatim>\<open>for\<close> loop (lines 24 to 29) over the groups still to put, entered or resumed.\<close>

fun put_items :: "tick_group list \<Rightarrow> producer \<Rightarrow> producer" where
  "put_items [] p = put_marker p"
| "put_items (g # gs) p =
     (if full p then p\<lparr>pc := AwaitPutItem g gs\<rparr> else put_items gs (put_nowait (Some g) p))"

text \<open>
  What can happen to the task: the event loop runs it (\<open>Run\<close>: it starts or resumes, and runs
  to its next wait or to its end), the connection handler takes an item from the queue
  (\<open>Get\<close>; from an empty queue it takes nothing and waits), or
  \<^verbatim>\<open>producer_task.cancel()\<close> is called (\<open>Cancel\<close>). \<^verbatim>\<open>Task.cancel()\<close> on a
  task that is done does nothing; otherwise \<^verbatim>\<open>CancelledError\<close> is thrown into the coroutine
  at the \<^verbatim>\<open>await\<close> it is suspended in when it runs next (a coroutine that has not started
  ends at once, before its first statement).
\<close>

datatype event = Run | Get | Cancel

fun step :: "tick_group list \<Rightarrow> event \<Rightarrow> producer \<Rightarrow> producer" where
  "step items Run p =
     (case pc p of
        NotStarted \<Rightarrow>
          if must_cancel p then p\<lparr>pc := CancelledOut, must_cancel := False\<rparr>
          else put_items items (producer_info ProducerStarting p)
      | AwaitPutItem g gs \<Rightarrow>
          if must_cancel p
          then put_marker (producer_info ProducerWasCancelled (p\<lparr>must_cancel := False\<rparr>))
          else put_items (g # gs) p
      | AwaitPutMarker \<Rightarrow>
          if must_cancel p then p\<lparr>pc := CancelledOut, must_cancel := False\<rparr>
          else put_marker p
      | Returned \<Rightarrow> p
      | CancelledOut \<Rightarrow> p)"
| "step items Get p =
     (case queue p of
        [] \<Rightarrow> p
      | x # q \<Rightarrow> p\<lparr>queue := q, dequeued := dequeued p @ [x]\<rparr>)"
| "step items Cancel p =
     (if pc p = Returned \<or> pc p = CancelledOut then p else p\<lparr>must_cancel := True\<rparr>)"

definition new_producer :: "int \<Rightarrow> producer" where
  "new_producer max_queue_size =
     \<lparr>pc = NotStarted, queue = [], maxsize = max_queue_size, enqueued = [], dequeued = [],
      must_cancel = False, producer_logs = []\<rparr>"

definition run_events :: "tick_group list \<Rightarrow> event list \<Rightarrow> producer \<Rightarrow> producer" where
  "run_events items evs p = foldl (\<lambda>q e. step items e q) p evs"

definition markers :: "producer \<Rightarrow> nat" where
  "markers p = count_list (enqueued p) None"

section \<open>server.py: the connection handler\<close>


datatype server_log =
    ClientConnected
  | TradeFileNotFound string
  | ErrorReadingParquet string
  | NoTradesToReplay
  | SentInitial nat int
  | SentLagging nat int real
  | SentWait nat int real
  | ReplayFinished
  | AverageLatency real
  | NoLatencyMeasurements
  | ClientDisconnected
  | ErrorDuringReplay string
  | AlreadyDisconnected
  | HandlerFinished


datatype effect = Send string | Log server_log | Sleep real | CreateProducer | CancelProducer

text \<open>
  The exceptions the handler meets: \<^verbatim>\<open>ConnectionClosed\<close> from the transport (its two
  subclasses \<^verbatim>\<open>ConnectionClosedOK\<close> and \<^verbatim>\<open>ConnectionClosedError\<close> are not told
  apart), and any other \<^verbatim>\<open>Exception\<close>, carried as \<^verbatim>\<open>str(e)\<close>.
\<close>

datatype exn = ConnectionClosed | OtherException string

text \<open>
  The handler's state. \<open>closes_after\<close> is the transport's part: \<open>Some k\<close> when the
  connection accepts \<open>k\<close> more frames and is closed from then on, \<open>None\<close> when it stays
  open. \<open>ticks\<close> counts the calls of \<^verbatim>\<open>asyncio.get_event_loop().time()\<close>: the clock is a
  function from the call's number to the reading.
\<close>

record handler =
  effects :: "effect list"
  closes_after :: "nat option"
  ticks :: nat
  latencies :: "real list"
  producer_task :: bool

definition emit :: "effect \<Rightarrow> handler \<Rightarrow> handler" where
  "emit e h = h\<lparr>effects := effects h @ [e]\<rparr>"

definition websocket_send :: "string \<Rightarrow> handler \<Rightarrow> exn option \<times> handler" where
  "websocket_send m h =
     (case closes_after h of
        None \<Rightarrow> (None, emit (Send m) h)
      | Some 0 \<Rightarrow> (Some ConnectionClosed, h)
      | Some (Suc k) \<Rightarrow> (None, (emit (Send m) h)\<lparr>closes_after := Some k\<rparr>))"

text \<open>
  \<^verbatim>\<open>await asyncio.gather(*(websocket.send(m) for m in messages))\<close> (lines 72 and 96):
  \<^verbatim>\<open>gather\<close> starts one task per message in the order of its arguments, and each
  \<^verbatim>\<open>send\<close> hands its frame to the transport when its task first runs; the first
  exception is the one \<^verbatim>\<open>gather\<close> raises.
\<close>

fun gather_send :: "string list \<Rightarrow> handler \<Rightarrow> exn option \<times> handler" where
  "gather_send [] h = (None, h)"
| "gather_send (m # ms) h =
     (case websocket_send m h of
        (Some e, h') \<Rightarrow> (Some e, h')
      | (None, h') \<Rightarrow> gather_send ms h')"

text \<open>
  \<^verbatim>\<open>asyncio.get_event_loop().time()\<close>: \<open>loop_time\<close> is the value the call returns and
  \<open>tick\<close> the state after it.
\<close>

definition loop_time :: "(nat \<Rightarrow> real) \<Rightarrow> handler \<Rightarrow> real" where
  "loop_time clock h = clock (ticks h)"

definition tick :: "handler \<Rightarrow> handler" where
  "tick h = h\<lparr>ticks := Suc (ticks h)\<rparr>"

text \<open>
  Clock readings, delays and latencies are Python floats, that is IEEE doubles. A finite
  double is a real number, Python compares doubles as the real numbers they are, and
  negation is exact; but sums, differences and quotients are rounded, and
  \<^verbatim>\<open>Timedelta.total_seconds()\<close> is pandas' conversion of a difference of timestamps
  (nanoseconds here) to a double. This arithmetic is the interpreter's and pandas', not the
  repository's: the model takes it as a parameter, and what is proved of the handler holds
  for the rounded arithmetic as for any other.
\<close>

record arith =
  fadd :: "real \<Rightarrow> real \<Rightarrow> real"
  fsub :: "real \<Rightarrow> real \<Rightarrow> real"
  fdiv :: "real \<Rightarrow> real \<Rightarrow> real"
  total_seconds :: "int \<Rightarrow> real"

text \<open>The body of \<^verbatim>\<open>while True\<close> for an item that is a tick group (lines 83 to 105).\<close>

fun pace_group ::
  "arith \<Rightarrow> (nat \<Rightarrow> real) \<Rightarrow> real \<Rightarrow> int \<Rightarrow> tick_group \<Rightarrow> handler \<Rightarrow> exn option \<times> handler" where
  "pace_group ar clock replay_start_time first_timestamp (ts, messages, num_trades) h =
       (let time_since_start = total_seconds ar (ts - first_timestamp);
            target_send_time = fadd ar replay_start_time time_since_start;
            current_time = loop_time clock h;
            delay = fsub ar target_send_time current_time;
            h2 = (if 0 < delay then emit (Sleep delay) (tick h) else tick h);
            actual_send_time = loop_time clock h2;
            h4 = (tick h2)\<lparr>latencies := latencies h2 @ [fsub ar actual_send_time target_send_time]\<rparr>
        in case gather_send messages h4 of
             (Some e, h5) \<Rightarrow> (Some e, h5)
           | (None, h5) \<Rightarrow>
               (None, emit (Log (if delay < 0 then SentLagging num_trades ts (- delay)
                                 else SentWait num_trades ts delay)) h5))"

text \<open>
  How a stretch of the handler ends: it runs through, it raises, or it stays suspended in
  \<^verbatim>\<open>await queue.get()\<close> because no item arrives.
\<close>

datatype outcome = Through | Raised exn | Suspended

text \<open>
  The \<^verbatim>\<open>while True\<close> loop (lines 78 to 105) over the items \<^verbatim>\<open>queue.get()\<close> returns,
  in order.
\<close>

fun pacer_loop ::
  "arith \<Rightarrow> (nat \<Rightarrow> real) \<Rightarrow> real \<Rightarrow> int \<Rightarrow> tick_group option list \<Rightarrow> handler
    \<Rightarrow> outcome \<times> handler" where
  "pacer_loop ar clock replay_start_time first_timestamp [] h = (Suspended, h)"
| "pacer_loop ar clock replay_start_time first_timestamp (None # items) h = (Through, h)"
| "pacer_loop ar clock replay_start_time first_timestamp (Some item # items) h =
     (case pace_group ar clock replay_start_time first_timestamp item h of
        (Some e, h') \<Rightarrow> (Raised e, h')
      | (None, h') \<Rightarrow> pacer_loop ar clock replay_start_time first_timestamp items h')"

text \<open>
  What \<^verbatim>\<open>pd.read_parquet\<close> and lines 55 and 56 make of the trade file: no such file, any
  other failure of the read, a failure of the conversion or the sort (a table without the
  column, a value that is no time), or the table.
\<close>

datatype 'a parquet =
    FileNotFoundError
  | ReadError string
  | ConvertError string
  | Table "'a row list"

text \<open>
  The items the handler's \<^verbatim>\<open>queue.get()\<close> calls return: the queue is first-in first-out
  and the producer, left to run, puts the tick groups and then the marker.
\<close>

definition queue_items :: "('a row \<Rightarrow> string) \<Rightarrow> 'a row list \<Rightarrow> tick_group option list" where
  "queue_items dumps_record df = map Some (tick_groups dumps_record df) @ [None]"

text \<open>Sending one control frame and going on, or raising what the transport raises.\<close>

definition send_then ::
  "string \<Rightarrow> handler \<Rightarrow> (handler \<Rightarrow> outcome \<times> handler) \<Rightarrow> outcome \<times> handler" where
  "send_then m h k = (case websocket_send m h of (Some e, h') \<Rightarrow> (Raised e, h') | (None, h') \<Rightarrow> k h')"

text \<open>
  Lines 109 to 113: \<^verbatim>\<open>sum(latencies) / len(latencies)\<close>, the sum taken from zero and
  from the left, as \<^verbatim>\<open>sum\<close> does.
\<close>

definition latency_report :: "arith \<Rightarrow> real list \<Rightarrow> server_log" where
  "latency_report ar ls =
     (if ls \<noteq> [] then AverageLatency (fdiv ar (foldl (fadd ar) 0 ls) (real (length ls)))
      else NoLatencyMeasurements)"

definition log_latency :: "arith \<Rightarrow> handler \<Rightarrow> handler" where
  "log_latency ar h = emit (Log (latency_report ar (latencies h))) h"

text \<open>Lines 63 to 113: from the first \<^verbatim>\<open>queue.get()\<close> to the latency report.\<close>

definition replay_items ::
  "arith \<Rightarrow> (json \<Rightarrow> string) \<Rightarrow> (nat \<Rightarrow> real) \<Rightarrow> tick_group option list \<Rightarrow> handler
    \<Rightarrow> outcome \<times> handler" where
  "replay_items ar dumps clock items h =
     (case items of
        [] \<Rightarrow> (Suspended, h)
      | None # rest \<Rightarrow>
          send_then (dumps (status_message ''Replay finished.'')) (emit (Log NoTradesToReplay) h)
            (\<lambda>h'. (Through, h'))
      | Some (first_timestamp, first_messages, num_trades) # rest \<Rightarrow>
          (let replay_start_time = loop_time clock h in
           case gather_send first_messages (tick h) of
             (Some e, h2) \<Rightarrow> (Raised e, h2)
           | (None, h2) \<Rightarrow>
               (case pacer_loop ar clock replay_start_time first_timestamp rest
                       (emit (Log (SentInitial num_trades first_timestamp)) h2) of
                  (Through, h3) \<Rightarrow>
                    send_then (dumps (status_message ''Replay finished.''))
                      (emit (Log ReplayFinished) h3) (\<lambda>h'. (Through, log_latency ar h'))
                | (Raised e, h3) \<Rightarrow> (Raised e, h3)
                | (Suspended, h3) \<Rightarrow> (Suspended, h3))))"

text \<open>The body of the outer \<^verbatim>\<open>try\<close> (lines 44 to 113).\<close>

definition replay_body ::
  "arith \<Rightarrow> (json \<Rightarrow> string) \<Rightarrow> ('a row \<Rightarrow> string) \<Rightarrow> (nat \<Rightarrow> real) \<Rightarrow> string \<Rightarrow> 'a parquet
    \<Rightarrow> handler \<Rightarrow> outcome \<times> handler" where
  "replay_body ar dumps dumps_record clock trade_file file h =
     (case file of
        FileNotFoundError \<Rightarrow>
          send_then (dumps (error_message (''File not found: '' @ trade_file)))
            (emit (Log (TradeFileNotFound trade_file)) h) (\<lambda>h'. (Through, h'))
      | ReadError e \<Rightarrow>
          send_then (dumps (error_message ''Could not read trade data.''))
            (emit (Log (ErrorReadingParquet e)) h) (\<lambda>h'. (Through, h'))
      | ConvertError e \<Rightarrow> (Raised (OtherException e), h)
      | Table df \<Rightarrow>
          send_then (dumps (status_message ''Data loaded. Starting replay.''))
            ((emit CreateProducer h)\<lparr>producer_task := True\<rparr>)
            (replay_items ar dumps clock (queue_items dumps_record (sort_values df))))"

text \<open>
  The \<^verbatim>\<open>except\<close> clauses (lines 115 to 126) and the \<^verbatim>\<open>finally\<close> clause (lines 127 to
  130). A handler that stays suspended reaches neither.
\<close>

definition on_exception :: "(json \<Rightarrow> string) \<Rightarrow> exn \<Rightarrow> handler \<Rightarrow> handler" where
  "on_exception dumps e h =
     (case e of
        ConnectionClosed \<Rightarrow> emit (Log ClientDisconnected) h
      | OtherException s \<Rightarrow>
          (case websocket_send (dumps (error_message (''An unexpected error occurred: '' @ s)))
                  (emit (Log (ErrorDuringReplay s)) h) of
             (Some x, h') \<Rightarrow> emit (Log AlreadyDisconnected) h'
           | (None, h') \<Rightarrow> h'))"

definition finally_clause :: "handler \<Rightarrow> handler" where
  "finally_clause h = emit (Log HandlerFinished) (if producer_task h then emit CancelProducer h else h)"

datatype session = SessionEnded | SessionSuspended

definition new_handler :: "nat option \<Rightarrow> handler" where
  "new_handler closes =
     \<lparr>effects = [], closes_after = closes, ticks = 0, latencies = [], producer_task = False\<rparr>"

definition replay_trades ::
  "arith \<Rightarrow> (json \<Rightarrow> string) \<Rightarrow> ('a row \<Rightarrow> string) \<Rightarrow> (nat \<Rightarrow> real) \<Rightarrow> string \<Rightarrow> 'a parquet
    \<Rightarrow> nat option \<Rightarrow> session \<times> handler" where
  "replay_trades ar dumps dumps_record clock trade_file file closes =
     (case replay_body ar dumps dumps_record clock trade_file file
             (emit (Log ClientConnected) (new_handler closes)) of
        (Through, h) \<Rightarrow> (SessionEnded, finally_clause h)
      | (Raised e, h) \<Rightarrow> (SessionEnded, finally_clause (on_exception dumps e h))
      | (Suspended, h) \<Rightarrow> (SessionSuspended, h))"

text \<open>Projections of the effects: frames on the wire, sleeps, log records.\<close>

fun sent :: "effect list \<Rightarrow> string list" where
  "sent [] = []"
| "sent (Send m # es) = m # sent es"
| "sent (e # es) = sent es"

fun slept :: "effect list \<Rightarrow> real list" where
  "slept [] = []"
| "slept (Sleep d # es) = d # slept es"
| "slept (e # es) = slept es"

fun logged :: "effect list \<Rightarrow> server_log list" where
  "logged [] = []"
| "logged (Log l # es) = l # logged es"
| "logged (e # es) = logged es"

text \<open>
  The pacing of a group in the words of the design. \<open>k\<close> is the number of the clock
  reading taken for the group before any sleep; the reading after it is number \<open>k + 1\<close>.
  The target send time is the replay's start plus the time from the first group's
  timestamp to the group's; the delay is the target less the first reading; the latency is
  the second reading less the target. The group's effects are a sleep of the delay when
  the delay is positive, then the group's frames, then its log record: the lag warning
  when the delay is negative, the wait record otherwise.
\<close>

definition target_send_time :: "arith \<Rightarrow> real \<Rightarrow> int \<Rightarrow> tick_group \<Rightarrow> real" where
  "target_send_time ar replay_start_time first_timestamp g =
     fadd ar replay_start_time (total_seconds ar (group_timestamp g - first_timestamp))"

definition delay_at :: "arith \<Rightarrow> (nat \<Rightarrow> real) \<Rightarrow> real \<Rightarrow> int \<Rightarrow> nat \<Rightarrow> tick_group \<Rightarrow> real" where
  "delay_at ar clock replay_start_time first_timestamp k g =
     fsub ar (target_send_time ar replay_start_time first_timestamp g) (clock k)"

definition latency_at :: "arith \<Rightarrow> (nat \<Rightarrow> real) \<Rightarrow> real \<Rightarrow> int \<Rightarrow> nat \<Rightarrow> tick_group \<Rightarrow> real" where
  "latency_at ar clock replay_start_time first_timestamp k g =
     fsub ar (clock (Suc k)) (target_send_time ar replay_start_time first_timestamp g)"

definition pace_log :: "arith \<Rightarrow> (nat \<Rightarrow> real) \<Rightarrow> real \<Rightarrow> int \<Rightarrow> nat \<Rightarrow> tick_group \<Rightarrow> server_log" where
  "pace_log ar clock replay_start_time first_timestamp k g =
     (if delay_at ar clock replay_start_time first_timestamp k g < 0
      then SentLagging (group_count g) (group_timestamp g)
             (- delay_at ar clock replay_start_time first_timestamp k g)
      else SentWait (group_count g) (group_timestamp g)
             (delay_at ar clock replay_start_time first_timestamp k g))"

definition paced_sleep :: "arith \<Rightarrow> (nat \<Rightarrow> real) \<Rightarrow> real \<Rightarrow> int \<Rightarrow> nat \<Rightarrow> tick_group \<Rightarrow> real list" where
  "paced_sleep ar clock replay_start_time first_timestamp k g =
     (if 0 < delay_at ar clock replay_start_time first_timestamp k g
      then [delay_at ar clock replay_start_time first_timestamp k g] else [])"

definition paced_effects :: "arith \<Rightarrow> (nat \<Rightarrow> real) \<Rightarrow> real \<Rightarrow> int \<Rightarrow> nat \<Rightarrow> tick_group \<Rightarrow> effect list" where
  "paced_effects ar clock replay_start_time first_timestamp k g =
     map Sleep (paced_sleep ar clock replay_start_time first_timestamp k g)
     @ map Send (group_messages g)
     @ [Log (pace_log ar clock replay_start_time first_timestamp k g)]"

text \<open>
  For the examples. Exact arithmetic: the examples' values are dyadic fractions of few
  digits, on which the arithmetic of doubles is exact. A clock given by the list of its
  readings (the last one from then on). An encoder that renders a control message by its
  text, and rows that are rendered by their payload.
\<close>

definition exact_arith :: arith where
  "exact_arith =
     \<lparr>fadd = (\<lambda>a b. a + b), fsub = (\<lambda>a b. a - b), fdiv = (\<lambda>a b. a / b),
      total_seconds = (\<lambda>d. real_of_int d / 1000000000)\<rparr>"

definition readings :: "real list \<Rightarrow> nat \<Rightarrow> real" where
  "readings rs k = (if k < length rs then rs ! k else last rs)"

definition example_dumps :: "json \<Rightarrow> string" where
  "example_dumps j =
     (case status_field j of
        Some (JStr s) \<Rightarrow> ''status: '' @ s
      | _ \<Rightarrow> (case error_field j of Some (JStr s) \<Rightarrow> ''error: '' @ s | _ \<Rightarrow> ''?''))"

text \<open>
  The scenario of three records, out of order in the file: \<open>A\<close> and \<open>B\<close> at the same
  instant, \<open>C\<close> two seconds later.
\<close>

definition example_df :: "string row list" where
  "example_df =
     [\<lparr>timestamp = Some 2000000000, payload = ''C''\<rparr>,
      \<lparr>timestamp = Some 0, payload = ''A''\<rparr>,
      \<lparr>timestamp = Some 0, payload = ''B''\<rparr>]"

text \<open>Four tick groups of one record each, for a queue of capacity one.\<close>

definition example_items :: "tick_group list" where
  "example_items = [(1, [''a''], 1), (2, [''b''], 1), (3, [''c''], 1), (4, [''d''], 1)]"

text \<open>What the coroutine has still to put, from where it is suspended.\<close>

definition remaining :: "tick_group list \<Rightarrow> producer \<Rightarrow> tick_group option list" where
  "remaining items p =
     (case pc p of
        NotStarted \<Rightarrow> map Some items @ [None]
      | AwaitPutItem g gs \<Rightarrow> map Some (g # gs) @ [None]
      | AwaitPutMarker \<Rightarrow> [None]
      | Returned \<Rightarrow> []
      | CancelledOut \<Rightarrow> [])"

text \<open>
  The schedule of a replay that nothing interrupts: the producer runs, and then \<open>k\<close> times
  the handler takes an item and the producer runs again.
\<close>

definition drain :: "nat \<Rightarrow> event list" where
  "drain k = Run # concat (replicate k [Get, Run])"

text \<open>
  A producer that has not been cancelled: what it has put and what it has still to put are
  the groups and then the marker, and what the handler has taken and what the queue holds
  are what has been put. \<open>backlog\<close> counts the items not yet taken.
\<close>

definition on_course :: "tick_group list \<Rightarrow> producer \<Rightarrow> bool" where
  "on_course items p =
     (\<not> must_cancel p \<and> pc p \<noteq> CancelledOut
      \<and> enqueued p @ remaining items p = map Some items @ [None]
      \<and> dequeued p @ queue p = enqueued p)"

definition backlog :: "tick_group list \<Rightarrow> producer \<Rightarrow> nat" where
  "backlog items p = length (remaining items p) + length (queue p)"

text \<open>
  The marker is on the queue's record at most once and last: a producer that has returned
  has put it as its final item, and no other producer has put it at all.
\<close>

definition well_marked :: "producer \<Rightarrow> bool" where
  "well_marked p =
     (if pc p = Returned
      then enqueued p \<noteq> [] \<and> last (enqueued p) = None \<and> None \<notin> set (butlast (enqueued p))
      else None \<notin> set (enqueued p))"

section \<open>The consumer: which messages stop the loop, and what is counted\<close>

lemma on_message_count: "message_count (snd (on_message loads n m msg c)) = message_count c + 1"
  by (simp add: on_message_def client_info_def Let_def split: option.splits)

lemma listen_count:
  "message_count (snd (listen_loop loads n m evs c)) = message_count c + int (length (consumed loads n m evs c))"
proof (induction evs arbitrary: c)
  case Nil
  then show ?case by simp
next
  case (Cons ev evs)
  show ?case
  proof (cases ev)
    case (Message msg)
    obtain f c' where oc: "on_message loads n m msg c = (f, c')" by (cases "on_message loads n m msg c")
    then have cnt: "message_count c' = message_count c + 1"
      using on_message_count[of loads n m msg c] by simp
    show ?thesis using Message oc cnt Cons.IH[of c']
      by (cases f) (simp_all add: log_total_def client_info_def)
  qed (simp_all add: log_total_def client_info_def)
qed

lemma listen_total:
  "fst (listen_loop loads n m evs c) \<noteq> Waiting \<Longrightarrow>
     last (client_logs (snd (listen_loop loads n m evs c)))
       = TotalTradesReceived (message_count (snd (listen_loop loads n m evs c)))"
proof (induction evs arbitrary: c)
  case Nil
  then show ?case by simp
next
  case (Cons ev evs)
  show ?case
  proof (cases ev)
    case (Message msg)
    obtain f c' where oc: "on_message loads n m msg c = (f, c')" by (cases "on_message loads n m msg c")
    show ?thesis using Message oc Cons.IH[of c'] Cons.prems
      by (cases f) (simp_all add: log_total_def client_info_def)
  qed (simp_all add: log_total_def client_info_def)
qed

lemma plain_status_step:
  "plain_status loads s \<Longrightarrow>
     \<exists>v. on_message loads n m s c
       = (Continue, client_info (ServerStatus v) (c\<lparr>message_count := message_count c + 1\<rparr>))"
  by (auto simp add: plain_status_def on_message_def Let_def split: option.splits)

lemma plain_status_run:
  "\<forall>s\<in>set ss. plain_status loads s \<Longrightarrow>
     \<exists>vs. listen_loop loads n m (map Message ss @ evs) c
        = listen_loop loads n m evs
            (c\<lparr>message_count := message_count c + int (length ss),
               client_logs := client_logs c @ map ServerStatus vs\<rparr>)"
proof (induction ss arbitrary: c)
  case Nil
  have "listen_loop loads n m (map Message [] @ evs) c
     = listen_loop loads n m evs
        (c\<lparr>message_count := message_count c + int (length ([]::string list)),
           client_logs := client_logs c @ map ServerStatus []\<rparr>)" by simp
  then show ?case by blast
next
  case (Cons s ss)
  have "plain_status loads s" using Cons.prems by simp
  then obtain v where st: "on_message loads n m s c
      = (Continue, client_info (ServerStatus v) (c\<lparr>message_count := message_count c + 1\<rparr>))"
    using plain_status_step[of loads s n m c] by blast
  let ?c' = "client_info (ServerStatus v) (c\<lparr>message_count := message_count c + 1\<rparr>)"
  have "\<forall>s\<in>set ss. plain_status loads s" using Cons.prems by simp
  then obtain vs where "listen_loop loads n m (map Message ss @ evs) ?c'
        = listen_loop loads n m evs
            (?c'\<lparr>message_count := message_count ?c' + int (length ss),
                client_logs := client_logs ?c' @ map ServerStatus vs\<rparr>)"
    using Cons.IH[of ?c'] by blast
  then have "listen_loop loads n m (map Message (s # ss) @ evs) c
     = listen_loop loads n m evs
         (c\<lparr>message_count := message_count c + int (length (s # ss)),
            client_logs := client_logs c @ map ServerStatus (v # vs)\<rparr>)"
    using st by (simp add: client_info_def add.commute add.left_commute)
  then show ?case by blast
qed

lemma window_after_statuses:
  assumes "\<forall>s\<in>set ss. plain_status loads s" and "loads d = Some data" and "status_field data = None"
  shows "(ReceivedTrade data \<in> set (client_logs (snd (listen_to_trades loads uri n m (map Message ss @ [Message d]))))
           \<longleftrightarrow> int (length ss) + 1 \<le> n)
       \<and> (m \<noteq> 0 \<longrightarrow>
           (ReceivedSoFar (int (length ss) + 1) \<in> set (client_logs (snd (listen_to_trades loads uri n m (map Message ss @ [Message d]))))
             \<longleftrightarrow> n < int (length ss) + 1 \<and> (int (length ss) + 1) mod m = 0))"
proof -
  let ?c0 = "client_info (Connected uri) \<lparr>message_count = 0, client_logs = []\<rparr>"
  obtain vs where run: "listen_loop loads n m (map Message ss @ [Message d]) ?c0
        = listen_loop loads n m [Message d]
            (?c0\<lparr>message_count := message_count ?c0 + int (length ss),
                client_logs := client_logs ?c0 @ map ServerStatus vs\<rparr>)"
    using plain_status_run[OF assms(1), of n m "[Message d]" ?c0] by blast
  show ?thesis
    unfolding listen_to_trades_def run using assms(2,3)
    by (auto simp add: on_message_def client_info_def log_total_def Let_def)
qed



text \<open>
  C9, as the code has it. A message with an \<^verbatim>\<open>error\<close> key and no \<^verbatim>\<open>status\<close> key
  takes the branch of the data records: among the first \<open>n\<close> messages it is logged as a
  received trade, and in every case the loop goes on, or raises, exactly as it does for
  any record \<open>msg'\<close> in its place; past the first \<open>n\<close> messages the two leave the same
  state behind.
\<close>

theorem error_message_handled_as_trade:
  assumes "loads msg = Some data" and "status_field data = None" and "error_field data = Some e"
    and "loads msg' = Some data'" and "status_field data' = None"
  shows "fst (on_message loads n m msg c) = fst (on_message loads n m msg' c)
     \<and> (message_count c + 1 \<le> n \<longrightarrow>
          on_message loads n m msg c
            = (Continue, client_info (ReceivedTrade data) (c\<lparr>message_count := message_count c + 1\<rparr>)))
     \<and> (n < message_count c + 1 \<longrightarrow>
          snd (on_message loads n m msg c) = snd (on_message loads n m msg' c))"
  using assms by (simp add: on_message_def Let_def)

theorem error_message_handled_as_trade_witness:
  "example_loads ''failed'' = Some (error_message ''Could not read trade data.'')
   \<and> status_field (error_message ''Could not read trade data.'') = None
   \<and> error_field (error_message ''Could not read trade data.'') = Some (JStr ''Could not read trade data.'')
   \<and> status_field (JObj [(''timestamp'', JStr ''2024-01-01 09:00:00''), (''price'', JNum 101)]) = None
   \<and> fst (on_message example_loads 10 100 ''failed'' \<lparr>message_count = 1, client_logs = []\<rparr>)
       = fst (on_message example_loads 10 100 ''trade'' \<lparr>message_count = 1, client_logs = []\<rparr>)
   \<and> on_message example_loads 10 100 ''failed'' \<lparr>message_count = 1, client_logs = []\<rparr>
       = (Continue, \<lparr>message_count = 2,
            client_logs = [ReceivedTrade (error_message ''Could not read trade data.'')]\<rparr>)"
proof -
  have a: "example_loads ''failed'' = Some (error_message ''Could not read trade data.'')"
    by (simp add: example_loads_def)
  have b: "status_field (error_message ''Could not read trade data.'') = None"
    by (simp add: error_message_def)
  have c: "error_field (error_message ''Could not read trade data.'') = Some (JStr ''Could not read trade data.'')"
    by (simp add: error_message_def)
  have d: "example_loads ''trade'' = Some (JObj [(''timestamp'', JStr ''2024-01-01 09:00:00''), (''price'', JNum 101)])"
    by (simp add: example_loads_def)
  have e: "status_field (JObj [(''timestamp'', JStr ''2024-01-01 09:00:00''), (''price'', JNum 101)]) = None"
    by simp
  show ?thesis
    using a b c e error_message_handled_as_trade [OF a b c d e, of 10 100 "\<lparr>message_count = 1, client_logs = []\<rparr>"]
    by (simp add: client_info_def on_message_def example_loads_def)
qed

text \<open>
  C9 as stated fails: the server's error message, arriving second, is logged as a received
  trade.
\<close>

theorem error_message_logged_as_trade:
  "on_message example_loads 10 100 ''failed'' \<lparr>message_count = 1, client_logs = []\<rparr>
     = (Continue, \<lparr>message_count = 2,
          client_logs = [ReceivedTrade (error_message ''Could not read trade data.'')]\<rparr>)
   \<and> error_field (error_message ''Could not read trade data.'') \<noteq> None
   \<and> status_field (error_message ''Could not read trade data.'') = None"
  by (simp add: on_message_def example_loads_def client_info_def error_message_def)

text \<open>
  C10. The counter goes up by one for every message taken from the connection, status
  messages included: when the function ends, the total it logs is the number of status
  messages plus the number of other messages it has read. Status messages use up the
  first-\<open>n\<close> window and move the summary threshold: after \<open>ss\<close>, all status messages, a
  record \<open>d\<close> is logged in detail only if \<open>length ss + 1 \<le> n\<close>, and the summary line is
  written for it when \<open>length ss + 1\<close> is past \<open>n\<close> and a multiple of the interval.
\<close>

theorem counter_counts_every_message:
  "message_count (snd (listen_to_trades loads uri n m evs))
     = int (length (filter (is_status loads) (received loads uri n m evs)))
       + int (length (filter (\<lambda>s. \<not> is_status loads s) (received loads uri n m evs)))
   \<and> (fst (listen_to_trades loads uri n m evs) \<noteq> Waiting \<longrightarrow>
        last (client_logs (snd (listen_to_trades loads uri n m evs)))
          = TotalTradesReceived
              (int (length (filter (is_status loads) (received loads uri n m evs)))
               + int (length (filter (\<lambda>s. \<not> is_status loads s) (received loads uri n m evs)))))
   \<and> ((\<forall>s\<in>set ss. plain_status loads s) \<and> loads d = Some data \<and> status_field data = None \<longrightarrow>
        (ReceivedTrade data \<in> set (client_logs (snd (listen_to_trades loads uri n m (map Message ss @ [Message d]))))
           \<longleftrightarrow> int (length ss) + 1 \<le> n)
        \<and> (m \<noteq> 0 \<longrightarrow>
            (ReceivedSoFar (int (length ss) + 1)
               \<in> set (client_logs (snd (listen_to_trades loads uri n m (map Message ss @ [Message d]))))
             \<longleftrightarrow> n < int (length ss) + 1 \<and> (int (length ss) + 1) mod m = 0)))"
proof -
  let ?c0 = "client_info (Connected uri) \<lparr>message_count = 0, client_logs = []\<rparr>"
  have split: "int (length (filter (is_status loads) xs)) + int (length (filter (\<lambda>s. \<not> is_status loads s) xs))
      = int (length xs)" for xs
    using sum_length_filter_compl[of "is_status loads" xs] by linarith
  have cnt0: "message_count (snd (listen_to_trades loads uri n m evs)) = int (length (received loads uri n m evs))"
    using listen_count[of loads n m evs ?c0]
    by (simp add: listen_to_trades_def received_def client_info_def)
  have cnt: "message_count (snd (listen_to_trades loads uri n m evs))
     = int (length (filter (is_status loads) (received loads uri n m evs)))
       + int (length (filter (\<lambda>s. \<not> is_status loads s) (received loads uri n m evs)))"
    using cnt0 split[of "received loads uri n m evs"] by simp
  have tot: "fst (listen_to_trades loads uri n m evs) \<noteq> Waiting \<longrightarrow>
        last (client_logs (snd (listen_to_trades loads uri n m evs)))
          = TotalTradesReceived
              (int (length (filter (is_status loads) (received loads uri n m evs)))
               + int (length (filter (\<lambda>s. \<not> is_status loads s) (received loads uri n m evs))))"
    using listen_total[of loads n m evs ?c0] cnt by (simp add: listen_to_trades_def)
  have win: "(\<forall>s\<in>set ss. plain_status loads s) \<and> loads d = Some data \<and> status_field data = None \<longrightarrow>
        (ReceivedTrade data \<in> set (client_logs (snd (listen_to_trades loads uri n m (map Message ss @ [Message d]))))
           \<longleftrightarrow> int (length ss) + 1 \<le> n)
        \<and> (m \<noteq> 0 \<longrightarrow>
            (ReceivedSoFar (int (length ss) + 1)
               \<in> set (client_logs (snd (listen_to_trades loads uri n m (map Message ss @ [Message d]))))
             \<longleftrightarrow> n < int (length ss) + 1 \<and> (int (length ss) + 1) mod m = 0))"
  proof (intro impI, elim conjE)
    assume "\<forall>s\<in>set ss. plain_status loads s" and "loads d = Some data" and "status_field data = None"
    then show "(ReceivedTrade data \<in> set (client_logs (snd (listen_to_trades loads uri n m (map Message ss @ [Message d]))))
           \<longleftrightarrow> int (length ss) + 1 \<le> n)
        \<and> (m \<noteq> 0 \<longrightarrow>
            (ReceivedSoFar (int (length ss) + 1)
               \<in> set (client_logs (snd (listen_to_trades loads uri n m (map Message ss @ [Message d]))))
             \<longleftrightarrow> n < int (length ss) + 1 \<and> (int (length ss) + 1) mod m = 0))"
      by (rule window_after_statuses)
  qed
  show ?thesis by (rule conjI [OF cnt conjI [OF tot win]])
qed

text \<open>
  An instance of C10: one status message, then one record, with a window of one message
  and a summary every two. The status message has used the window: the record is not
  logged in detail, it is the second message and gets the summary line, and the total is
  two.
\<close>

theorem counter_counts_every_message_witness:
  "plain_status example_loads ''loaded''
   \<and> example_loads ''trade'' = Some (JObj [(''timestamp'', JStr ''2024-01-01 09:00:00''), (''price'', JNum 101)])
   \<and> listen_to_trades example_loads ''ws://localhost:8765'' 1 2
        (map Message [''loaded''] @ [Message ''trade'']) \<noteq> (Waiting, \<lparr>message_count = 0, client_logs = []\<rparr>)
   \<and> ReceivedTrade (JObj [(''timestamp'', JStr ''2024-01-01 09:00:00''), (''price'', JNum 101)])
        \<notin> set (client_logs (snd (listen_to_trades example_loads ''ws://localhost:8765'' 1 2
              (map Message [''loaded''] @ [Message ''trade'']))))
   \<and> ReceivedSoFar 2
        \<in> set (client_logs (snd (listen_to_trades example_loads ''ws://localhost:8765'' 1 2
              (map Message [''loaded''] @ [Message ''trade'']))))
   \<and> message_count (snd (listen_to_trades example_loads ''ws://localhost:8765'' 1 2
        [Message ''loaded'', Message ''trade'', RecvConnectionClosed])) = 2
   \<and> last (client_logs (snd (listen_to_trades example_loads ''ws://localhost:8765'' 1 2
        [Message ''loaded'', Message ''trade'', RecvConnectionClosed]))) = TotalTradesReceived 2"
proof -
  have a: "plain_status example_loads ''loaded''"
    by (simp add: plain_status_def example_loads_def status_message_def)
  have b: "example_loads ''trade'' = Some (JObj [(''timestamp'', JStr ''2024-01-01 09:00:00''), (''price'', JNum 101)])"
    by (simp add: example_loads_def)
  have c: "status_field (JObj [(''timestamp'', JStr ''2024-01-01 09:00:00''), (''price'', JNum 101)]) = None"
    by simp
  have r: "received example_loads ''ws://localhost:8765'' 1 2
             [Message ''loaded'', Message ''trade'', RecvConnectionClosed] = [''loaded'', ''trade'']"
    by (simp add: received_def on_message_def example_loads_def client_info_def status_message_def)
  have s: "is_status example_loads ''loaded''" "\<not> is_status example_loads ''trade''"
    by (simp_all add: is_status_def example_loads_def status_message_def)
  have f: "fst (listen_to_trades example_loads ''ws://localhost:8765'' 1 2
             [Message ''loaded'', Message ''trade'', RecvConnectionClosed]) \<noteq> Waiting"
    by (simp add: listen_to_trades_def on_message_def example_loads_def client_info_def
        status_message_def log_total_def)
  have w: "listen_to_trades example_loads ''ws://localhost:8765'' 1 2
        (map Message [''loaded''] @ [Message ''trade'']) \<noteq> (Waiting, \<lparr>message_count = 0, client_logs = []\<rparr>)"
    by (simp add: listen_to_trades_def on_message_def example_loads_def client_info_def
        status_message_def log_total_def)
  note t1 = counter_counts_every_message [of example_loads "''ws://localhost:8765''" 1 2
      "[Message ''loaded'', Message ''trade'', RecvConnectionClosed]" "[''loaded'']" "''trade''"
      "JObj [(''timestamp'', JStr ''2024-01-01 09:00:00''), (''price'', JNum 101)]"]
  show ?thesis using a b c w f t1 by (simp add: r s)
qed

section \<open>The tick groups: a partition of the rows\<close>

lemma set_group_keys: "set (group_keys df) = {k. \<exists>r\<in>set df. timestamp r = Some k}"
  by (force simp add: group_keys_def List.map_filter_def)

lemma distinct_group_keys: "distinct (group_keys df)"
  by (simp add: group_keys_def)

lemma sorted_group_keys: "sorted (group_keys df)"
  by (simp add: group_keys_def)

lemma strict_group_keys: "sorted_wrt (<) (group_keys df)"
  using sorted_group_keys[of df] distinct_group_keys[of df]
  by (simp add: strict_sorted_iff)

lemma mset_groups:
  "distinct ks \<Longrightarrow>
     mset (concat (map (\<lambda>k. filter (\<lambda>r. f r = Some k) xs) ks))
       = mset (filter (\<lambda>r. \<exists>k\<in>set ks. f r = Some k) xs)"
proof (induction ks)
  case Nil
  then show ?case by simp
next
  case (Cons k ks)
  have "mset (filter (\<lambda>r. f r = Some k) xs) + mset (filter (\<lambda>r. \<exists>k\<in>set ks. f r = Some k) xs)
      = mset (filter (\<lambda>r. \<exists>j\<in>set (k # ks). f r = Some j) xs)"
    using Cons.prems by (induction xs) auto
  then show ?case using Cons by simp
qed

lemma keyed_rows: "filter (\<lambda>r. \<exists>k\<in>set (group_keys df). timestamp r = Some k) df = filter (\<lambda>r. timestamp r \<noteq> None) df"
  by (rule filter_cong) (auto simp add: set_group_keys)

lemma groupby_rows:
  "mset (concat (map snd (groupby_timestamp df))) = mset (filter (\<lambda>r. timestamp r \<noteq> None) df)"
proof -
  have "map snd (groupby_timestamp df) = map (\<lambda>k. filter (\<lambda>r. timestamp r = Some k) df) (group_keys df)"
    by (simp add: groupby_timestamp_def comp_def)
  then show ?thesis
    using mset_groups[OF distinct_group_keys, of timestamp df df] keyed_rows[of df] by simp
qed

lemma groupby_same_key: "(k, rows) \<in> set (groupby_timestamp df) \<Longrightarrow> r \<in> set rows \<Longrightarrow> timestamp r = Some k"
  by (auto simp add: groupby_timestamp_def)

lemma groupby_nonempty: "(k, rows) \<in> set (groupby_timestamp df) \<Longrightarrow> rows \<noteq> []"
  by (auto simp add: groupby_timestamp_def set_group_keys filter_empty_conv)

lemma groupby_keys: "map fst (groupby_timestamp df) = group_keys df"
  by (simp add: groupby_timestamp_def comp_def)

lemma tick_group_timestamps: "map group_timestamp (tick_groups dr df) = group_keys df"
  by (simp add: tick_groups_def groupby_timestamp_def comp_def)

lemma tick_group_counts: "map group_count (tick_groups dr df) = map (\<lambda>g. length (snd g)) (groupby_timestamp df)"
  by (simp add: tick_groups_def comp_def case_prod_beta)

lemma tick_group_messages: "map group_messages (tick_groups dr df) = map (\<lambda>g. map dr (snd g)) (groupby_timestamp df)"
  by (simp add: tick_groups_def comp_def case_prod_beta)

lemma sum_counts:
  "sum_list (map group_count (tick_groups dr df)) = length (filter (\<lambda>r. timestamp r \<noteq> None) df)"
proof -
  have "sum_list (map group_count (tick_groups dr df)) = length (concat (map snd (groupby_timestamp df)))"
    by (simp add: tick_group_counts length_concat comp_def)
  also have "\<dots> = size (mset (concat (map snd (groupby_timestamp df))))" by simp
  also have "\<dots> = size (mset (filter (\<lambda>r. timestamp r \<noteq> None) df))"
    by (simp only: groupby_rows)
  also have "\<dots> = length (filter (\<lambda>r. timestamp r \<noteq> None) df)"
    by (simp only: size_mset)
  finally show ?thesis .
qed

lemma all_messages:
  "mset (concat (map group_messages (tick_groups dr df))) = mset (map dr (filter (\<lambda>r. timestamp r \<noteq> None) df))"
proof -
  have "concat (map group_messages (tick_groups dr df)) = map dr (concat (map snd (groupby_timestamp df)))"
    by (simp add: tick_group_messages map_concat comp_def)
  then show ?thesis using groupby_rows[of df] by (metis mset_map)
qed

lemma mset_sort_values: "mset (sort_values df) = mset df"
  by (simp add: sort_values_def)

lemma timed_sort_values:
  "mset (filter (\<lambda>r. timestamp r \<noteq> None) (sort_values df)) = mset (filter (\<lambda>r. timestamp r \<noteq> None) df)"
  using mset_sort_values[of df] by (metis mset_filter)


text \<open>
  For every table, the tick groups put on the queue are the groups of \<^verbatim>\<open>groupby\<close>
  with their rows serialized and counted, and they partition the rows that have a
  timestamp.
\<close>

lemma tick_groups_cover:
  "let groups = groupby_timestamp (sort_values df);
       items = tick_groups dumps_record (sort_values df);
       timed = filter (\<lambda>r. timestamp r \<noteq> None) df
   in items = map (\<lambda>(ts, group). (ts, map dumps_record group, length group)) groups
      \<and> sum_list (map group_count items) = length timed
      \<and> mset (concat (map snd groups)) = mset timed
      \<and> mset (concat (map group_messages items)) = mset (map dumps_record timed)
      \<and> (\<forall>(ts, group) \<in> set groups. group \<noteq> [] \<and> (\<forall>r \<in> set group. timestamp r = Some ts))
      \<and> sorted (map group_timestamp items) \<and> distinct (map group_timestamp items)
      \<and> ((\<forall>r \<in> set df. timestamp r \<noteq> None) \<longrightarrow> timed = df)"
proof -
  let ?sdf = "sort_values df"
  have a: "tick_groups dumps_record ?sdf
      = map (\<lambda>(ts, group). (ts, map dumps_record group, length group)) (groupby_timestamp ?sdf)"
    by (simp add: tick_groups_def)
  have len: "length (filter (\<lambda>r. timestamp r \<noteq> None) ?sdf) = length (filter (\<lambda>r. timestamp r \<noteq> None) df)"
    using timed_sort_values[of df] by (metis size_mset)
  have b: "sum_list (map group_count (tick_groups dumps_record ?sdf)) = length (filter (\<lambda>r. timestamp r \<noteq> None) df)"
    using sum_counts[of dumps_record ?sdf] len by simp
  have c: "mset (concat (map snd (groupby_timestamp ?sdf))) = mset (filter (\<lambda>r. timestamp r \<noteq> None) df)"
    using groupby_rows[of ?sdf] timed_sort_values[of df] by simp
  have m: "mset (concat (map group_messages (tick_groups dumps_record ?sdf)))
      = mset (map dumps_record (filter (\<lambda>r. timestamp r \<noteq> None) df))"
    using all_messages[of dumps_record ?sdf] timed_sort_values[of df] by (metis mset_map)
  have d: "\<forall>(ts, group) \<in> set (groupby_timestamp ?sdf). group \<noteq> [] \<and> (\<forall>r \<in> set group. timestamp r = Some ts)"
    using groupby_same_key[of _ _ ?sdf] groupby_nonempty[of _ _ ?sdf] by blast
  have e: "sorted (map group_timestamp (tick_groups dumps_record ?sdf))"
    "distinct (map group_timestamp (tick_groups dumps_record ?sdf))"
    by (simp_all add: tick_group_timestamps sorted_group_keys distinct_group_keys)
  have f: "(\<forall>r \<in> set df. timestamp r \<noteq> None) \<longrightarrow> filter (\<lambda>r. timestamp r \<noteq> None) df = df"
    by simp
  show ?thesis unfolding Let_def using a b c m d e f by blast
qed

lemma example_groups:
  "sort_values example_df
     = [\<lparr>timestamp = Some 0, payload = ''A''\<rparr>, \<lparr>timestamp = Some 0, payload = ''B''\<rparr>,
        \<lparr>timestamp = Some 2000000000, payload = ''C''\<rparr>]"
  "tick_groups payload (sort_values example_df) = [(0, [''A'', ''B''], 2), (2000000000, [''C''], 1)]"
  by (simp_all add: sort_values_def example_df_def tick_groups_def groupby_timestamp_def group_keys_def)

section \<open>The producer: what it puts on the queue, and the marker when it is cancelled\<close>

text \<open>
  C2 at a queue of capacity one and four groups. The handler takes two groups and then
  cancels the producer (the consumer has gone), which waits in \<^verbatim>\<open>queue.put\<close> for room
  for the fourth group. \<^verbatim>\<open>CancelledError\<close> takes it to the \<^verbatim>\<open>finally\<close> clause, whose
  \<^verbatim>\<open>queue.put(None)\<close> finds the queue still full: the producer waits again, no marker
  is on the queue, and running the producer changes nothing. A second cancellation ends
  the task with no marker put at all.
\<close>

theorem producer_cancelled_on_full_queue:
  "pc (run_events example_items [Run, Get, Run, Get, Run, Cancel, Run] (new_producer 1)) = AwaitPutMarker
   \<and> enqueued (run_events example_items [Run, Get, Run, Get, Run, Cancel, Run] (new_producer 1))
       = [Some (1, [''a''], 1), Some (2, [''b''], 1), Some (3, [''c''], 1)]
   \<and> markers (run_events example_items [Run, Get, Run, Get, Run, Cancel, Run] (new_producer 1)) = 0
   \<and> step example_items Run (run_events example_items [Run, Get, Run, Get, Run, Cancel, Run] (new_producer 1))
       = run_events example_items [Run, Get, Run, Get, Run, Cancel, Run] (new_producer 1)
   \<and> pc (run_events example_items [Run, Get, Run, Get, Run, Cancel, Run, Cancel, Run] (new_producer 1)) = CancelledOut
   \<and> markers (run_events example_items [Run, Get, Run, Get, Run, Cancel, Run, Cancel, Run] (new_producer 1)) = 0"
  by (simp add: run_events_def example_items_def new_producer_def full_def put_nowait_def
      put_marker_def producer_info_def markers_def)


lemma put_marker_well: "None \<notin> set (enqueued p) \<Longrightarrow> well_marked (put_marker p)"
  by (simp add: well_marked_def put_marker_def put_nowait_def producer_info_def)

lemma put_items_well: "None \<notin> set (enqueued p) \<Longrightarrow> well_marked (put_items gs p)"
proof (induction gs arbitrary: p)
  case Nil
  then show ?case by (simp add: put_marker_well)
next
  case (Cons g gs)
  have "None \<notin> set (enqueued (put_nowait (Some g) p))" using Cons.prems by (simp add: put_nowait_def)
  then have "well_marked (put_items gs (put_nowait (Some g) p))" by (rule Cons.IH)
  moreover have "well_marked (p\<lparr>pc := AwaitPutItem g gs\<rparr>)" using Cons.prems by (simp add: well_marked_def)
  ultimately show ?case by simp
qed

lemma step_run_well: "well_marked p \<Longrightarrow> well_marked (step items Run p)"
proof -
  assume w: "well_marked p"
  show ?thesis
  proof (cases "pc p")
    case NotStarted
    then have "None \<notin> set (enqueued (producer_info ProducerStarting p))" using w
      by (simp add: well_marked_def producer_info_def)
    then have "well_marked (put_items items (producer_info ProducerStarting p))" by (rule put_items_well)
    moreover have "well_marked (p\<lparr>pc := CancelledOut, must_cancel := False\<rparr>)"
      using w NotStarted by (simp add: well_marked_def)
    ultimately show ?thesis using NotStarted by simp
  next
    case (AwaitPutItem g gs)
    then have n: "None \<notin> set (enqueued p)" using w by (simp add: well_marked_def)
    then have "None \<notin> set (enqueued (producer_info ProducerWasCancelled (p\<lparr>must_cancel := False\<rparr>)))"
      by (simp add: producer_info_def)
    then have "well_marked (put_marker (producer_info ProducerWasCancelled (p\<lparr>must_cancel := False\<rparr>)))"
      by (rule put_marker_well)
    moreover have "well_marked (put_items (g # gs) p)" using n by (rule put_items_well)
    ultimately show ?thesis using AwaitPutItem by (simp del: put_items.simps)
  next
    case AwaitPutMarker
    then have n: "None \<notin> set (enqueued p)" using w by (simp add: well_marked_def)
    then have "well_marked (put_marker p)" by (rule put_marker_well)
    moreover have "well_marked (p\<lparr>pc := CancelledOut, must_cancel := False\<rparr>)"
      using n by (simp add: well_marked_def)
    ultimately show ?thesis using AwaitPutMarker by simp
  next
    case Returned
    then show ?thesis using w by simp
  next
    case CancelledOut
    then show ?thesis using w by simp
  qed
qed

lemma step_well: "well_marked p \<Longrightarrow> well_marked (step items ev p)"
proof (cases ev)
  case Run
  assume "well_marked p"
  then show ?thesis using Run by (simp only: step_run_well)
next
  case Get
  assume "well_marked p"
  then show ?thesis using Get by (simp add: well_marked_def split: list.splits)
next
  case Cancel
  assume "well_marked p"
  then show ?thesis using Cancel by (simp add: well_marked_def)
qed

lemma run_events_well: "well_marked p \<Longrightarrow> well_marked (run_events items evs p)"
  unfolding run_events_def by (induction evs arbitrary: p) (simp_all add: step_well del: step.simps)

lemma new_producer_well: "well_marked (new_producer n)"
  by (simp add: well_marked_def new_producer_def)

lemma well_marked_markers: "well_marked p \<Longrightarrow> markers p = (if pc p = Returned then 1 else 0)"
proof -
  assume w: "well_marked p"
  show ?thesis
  proof (cases "pc p = Returned")
    case True
    then have ne: "enqueued p \<noteq> []" and l: "last (enqueued p) = None"
      and n: "None \<notin> set (butlast (enqueued p))"
      using w by (simp_all add: well_marked_def)
    have e: "enqueued p = butlast (enqueued p) @ [None]"
      using append_butlast_last_id [OF ne] l by simp
    have "count_list (butlast (enqueued p) @ [None]) None = 1"
      using n by (simp add: count_list_0_iff)
    then have "count_list (enqueued p) None = 1" using e by simp
    then show ?thesis using True by (simp add: markers_def)
  next
    case False
    then show ?thesis using w by (simp add: well_marked_def markers_def count_list_0_iff)
  qed
qed

text \<open>
  Whatever happens to the task, the marker is put at most once: once by a producer that
  has returned, as its last item, and never by one that has not.
\<close>

lemma at_most_one_marker:
  "markers (run_events items evs (new_producer n))
     = (if pc (run_events items evs (new_producer n)) = Returned then 1 else 0)
   \<and> (pc (run_events items evs (new_producer n)) = Returned \<longrightarrow>
        last (enqueued (run_events items evs (new_producer n))) = None)"
  using run_events_well [OF new_producer_well, of items evs n]
    well_marked_markers [of "run_events items evs (new_producer n)"]
  by (simp add: well_marked_def)

text \<open>Cancelling a producer that has returned changes nothing and puts no second marker.\<close>

lemma cancel_after_return_is_noop:
  "pc p = Returned \<Longrightarrow>
     step items Cancel p = p \<and> step items Run (step items Cancel p) = p
     \<and> markers (run_events items [Cancel, Run] p) = markers p"
  by (simp add: run_events_def)


lemma put_marker_course:
  "\<exists>new. enqueued (put_marker p) = enqueued p @ new
     \<and> queue (put_marker p) = queue p @ new
     \<and> new @ remaining items (put_marker p) = [None]
     \<and> dequeued (put_marker p) = dequeued p
     \<and> must_cancel (put_marker p) = must_cancel p
     \<and> pc (put_marker p) \<noteq> CancelledOut \<and> pc (put_marker p) \<noteq> NotStarted
     \<and> (remaining items (put_marker p) \<noteq> [] \<longrightarrow> queue (put_marker p) \<noteq> [])"
proof (cases "full p")
  case True
  then have "queue p \<noteq> []" by (auto simp add: full_def)
  then show ?thesis using True
    by (intro exI[of _ "[]"]) (simp add: put_marker_def remaining_def)
next
  case False
  then show ?thesis
    by (intro exI[of _ "[None]"]) (simp add: put_marker_def put_nowait_def producer_info_def remaining_def)
qed

lemma put_items_course:
  "\<exists>new. enqueued (put_items gs p) = enqueued p @ new
     \<and> queue (put_items gs p) = queue p @ new
     \<and> new @ remaining items (put_items gs p) = map Some gs @ [None]
     \<and> dequeued (put_items gs p) = dequeued p
     \<and> must_cancel (put_items gs p) = must_cancel p
     \<and> pc (put_items gs p) \<noteq> CancelledOut \<and> pc (put_items gs p) \<noteq> NotStarted
     \<and> (remaining items (put_items gs p) \<noteq> [] \<longrightarrow> queue (put_items gs p) \<noteq> [])"
proof (induction gs arbitrary: p)
  case Nil
  show ?case using put_marker_course[of p items] by simp
next
  case (Cons g gs)
  show ?case
  proof (cases "full p")
    case True
    then have "queue p \<noteq> []" by (auto simp add: full_def)
    then show ?thesis using True
      by (intro exI[of _ "[]"]) (simp add: remaining_def)
  next
    case False
    let ?q = "put_nowait (Some g) p"
    have q: "enqueued ?q = enqueued p @ [Some g]" "queue ?q = queue p @ [Some g]"
      "dequeued ?q = dequeued p" "must_cancel ?q = must_cancel p"
      by (simp_all add: put_nowait_def)
    obtain new where n: "enqueued (put_items gs ?q) = enqueued ?q @ new"
      "queue (put_items gs ?q) = queue ?q @ new"
      "new @ remaining items (put_items gs ?q) = map Some gs @ [None]"
      "dequeued (put_items gs ?q) = dequeued ?q"
      "must_cancel (put_items gs ?q) = must_cancel ?q"
      "pc (put_items gs ?q) \<noteq> CancelledOut" "pc (put_items gs ?q) \<noteq> NotStarted"
      "remaining items (put_items gs ?q) \<noteq> [] \<longrightarrow> queue (put_items gs ?q) \<noteq> []"
      using Cons.IH[of ?q] by blast
    show ?thesis using False n q
      by (intro exI[of _ "Some g # new"]) simp
  qed
qed

lemma on_course_new: "on_course items (new_producer n)"
  by (simp add: on_course_def new_producer_def remaining_def)

lemma on_course_get: "on_course items p \<Longrightarrow> on_course items (step items Get p)"
  by (cases "queue p") (simp_all add: on_course_def remaining_def)

lemma on_course_run:
  "on_course items p \<Longrightarrow>
     on_course items (step items Run p)
     \<and> pc (step items Run p) \<noteq> NotStarted
     \<and> (remaining items (step items Run p) \<noteq> [] \<longrightarrow> queue (step items Run p) \<noteq> [])
     \<and> backlog items (step items Run p) = backlog items p"
proof -
  assume c: "on_course items p"
  then have nc: "\<not> must_cancel p" and dq: "dequeued p @ queue p = enqueued p"
    and all: "enqueued p @ remaining items p = map Some items @ [None]"
    and pcn: "pc p \<noteq> CancelledOut"
    by (simp_all add: on_course_def)
  show ?thesis
  proof (cases "pc p")
    case NotStarted
    let ?p = "producer_info ProducerStarting p"
    have e: "enqueued ?p = enqueued p" "queue ?p = queue p" "dequeued ?p = dequeued p" "must_cancel ?p = must_cancel p"
      by (simp_all add: producer_info_def)
    obtain new where n: "enqueued (put_items items ?p) = enqueued ?p @ new"
      "queue (put_items items ?p) = queue ?p @ new"
      "new @ remaining items (put_items items ?p) = map Some items @ [None]"
      "dequeued (put_items items ?p) = dequeued ?p"
      "must_cancel (put_items items ?p) = must_cancel ?p"
      "pc (put_items items ?p) \<noteq> CancelledOut" "pc (put_items items ?p) \<noteq> NotStarted"
      "remaining items (put_items items ?p) \<noteq> [] \<longrightarrow> queue (put_items items ?p) \<noteq> []"
      using put_items_course[of items ?p items] by blast
    have en: "enqueued p = []" using all NotStarted by (simp add: remaining_def)
    have st: "step items Run p = put_items items ?p" using NotStarted nc by simp
    have len: "length new + length (remaining items (put_items items ?p)) = length items + 1"
      using n(3) by (metis length_append length_map length_Cons list.size(3) One_nat_def add.commute plus_1_eq_Suc)
    show ?thesis unfolding st using n e dq en nc NotStarted len
      by (simp add: on_course_def backlog_def remaining_def)
  next
    case (AwaitPutItem g gs)
    obtain new where n: "enqueued (put_items (g # gs) p) = enqueued p @ new"
      "queue (put_items (g # gs) p) = queue p @ new"
      "new @ remaining items (put_items (g # gs) p) = map Some (g # gs) @ [None]"
      "dequeued (put_items (g # gs) p) = dequeued p"
      "must_cancel (put_items (g # gs) p) = must_cancel p"
      "pc (put_items (g # gs) p) \<noteq> CancelledOut" "pc (put_items (g # gs) p) \<noteq> NotStarted"
      "remaining items (put_items (g # gs) p) \<noteq> [] \<longrightarrow> queue (put_items (g # gs) p) \<noteq> []"
      using put_items_course[of "g # gs" p items] by blast
    have st: "step items Run p = put_items (g # gs) p" using AwaitPutItem nc by simp
    have r: "remaining items p = map Some (g # gs) @ [None]" using AwaitPutItem by (simp add: remaining_def)
    have len: "length new + length (remaining items (put_items (g # gs) p)) = length (remaining items p)"
      using n(3) r by (metis length_append)
    have a: "enqueued (put_items (g # gs) p) @ remaining items (put_items (g # gs) p) = map Some items @ [None]"
      using n(1,3) all r by simp
    have d: "dequeued (put_items (g # gs) p) @ queue (put_items (g # gs) p) = enqueued (put_items (g # gs) p)"
      using n(1,2,4) dq by simp
    show ?thesis unfolding st using n(5,6,7,8) n(2) a d nc len
      by (simp add: on_course_def backlog_def)
  next
    case AwaitPutMarker
    obtain new where n: "enqueued (put_marker p) = enqueued p @ new"
      "queue (put_marker p) = queue p @ new"
      "new @ remaining items (put_marker p) = [None]"
      "dequeued (put_marker p) = dequeued p"
      "must_cancel (put_marker p) = must_cancel p"
      "pc (put_marker p) \<noteq> CancelledOut" "pc (put_marker p) \<noteq> NotStarted"
      "remaining items (put_marker p) \<noteq> [] \<longrightarrow> queue (put_marker p) \<noteq> []"
      using put_marker_course[of p items] by blast
    have st: "step items Run p = put_marker p" using AwaitPutMarker nc by simp
    have r: "remaining items p = [None]" using AwaitPutMarker by (simp add: remaining_def)
    have len: "length new + length (remaining items (put_marker p)) = length (remaining items p)"
      using n(3) r by (metis length_append)
    have a: "enqueued (put_marker p) @ remaining items (put_marker p) = map Some items @ [None]"
      using n(1,3) all r by simp
    have d: "dequeued (put_marker p) @ queue (put_marker p) = enqueued (put_marker p)"
      using n(1,2,4) dq by simp
    show ?thesis unfolding st using n(5,6,7,8) n(2) a d nc len
      by (simp add: on_course_def backlog_def)
  next
    case Returned
    then show ?thesis using c by (simp add: remaining_def)
  next
    case CancelledOut
    then show ?thesis using pcn by simp
  qed
qed


lemma round_settles:
  assumes c: "on_course items p" and ns: "pc p \<noteq> NotStarted"
    and q: "remaining items p \<noteq> [] \<longrightarrow> queue p \<noteq> []"
  shows "on_course items (step items Run (step items Get p))
     \<and> pc (step items Run (step items Get p)) \<noteq> NotStarted
     \<and> (remaining items (step items Run (step items Get p)) \<noteq> []
          \<longrightarrow> queue (step items Run (step items Get p)) \<noteq> [])
     \<and> backlog items (step items Run (step items Get p)) = backlog items p - 1"
proof -
  let ?g = "step items Get p"
  have cg: "on_course items ?g" using c by (rule on_course_get)
  have bg: "backlog items ?g = backlog items p - 1"
  proof (cases "queue p")
    case Nil
    then have "remaining items p = []" using q by blast
    then show ?thesis using Nil by (simp add: backlog_def)
  next
    case (Cons x xs)
    then show ?thesis by (simp add: backlog_def remaining_def)
  qed
  show ?thesis using on_course_run[OF cg] bg by simp
qed

lemma rounds_settle:
  "on_course items p \<Longrightarrow> pc p \<noteq> NotStarted \<Longrightarrow> (remaining items p \<noteq> [] \<longrightarrow> queue p \<noteq> []) \<Longrightarrow>
     on_course items (run_events items (concat (replicate k [Get, Run])) p)
     \<and> pc (run_events items (concat (replicate k [Get, Run])) p) \<noteq> NotStarted
     \<and> backlog items (run_events items (concat (replicate k [Get, Run])) p) = backlog items p - k"
proof (induction k arbitrary: p)
  case 0
  then show ?case by (simp add: run_events_def)
next
  case (Suc k)
  let ?r = "step items Run (step items Get p)"
  note r = round_settles[OF Suc.prems]
  have e: "run_events items (concat (replicate (Suc k) [Get, Run])) p
      = run_events items (concat (replicate k [Get, Run])) ?r"
    by (simp add: run_events_def)
  have "on_course items (run_events items (concat (replicate k [Get, Run])) ?r)
     \<and> pc (run_events items (concat (replicate k [Get, Run])) ?r) \<noteq> NotStarted
     \<and> backlog items (run_events items (concat (replicate k [Get, Run])) ?r) = backlog items ?r - k"
    using r by (intro Suc.IH) simp_all
  then show ?case unfolding e using r by simp
qed

lemma drain_settles:
  "on_course items (run_events items (drain k) (new_producer n))
   \<and> pc (run_events items (drain k) (new_producer n)) \<noteq> NotStarted
   \<and> backlog items (run_events items (drain k) (new_producer n)) = length items + 1 - k"
proof -
  let ?p = "step items Run (new_producer n)"
  note r = on_course_run[OF on_course_new, of items n]
  have b: "backlog items (new_producer n) = length items + 1"
    by (simp add: backlog_def remaining_def new_producer_def)
  have e: "run_events items (drain k) (new_producer n)
      = run_events items (concat (replicate k [Get, Run])) ?p"
    by (simp add: drain_def run_events_def)
  have "on_course items (run_events items (concat (replicate k [Get, Run])) ?p)
     \<and> pc (run_events items (concat (replicate k [Get, Run])) ?p) \<noteq> NotStarted
     \<and> backlog items (run_events items (concat (replicate k [Get, Run])) ?p) = backlog items ?p - k"
    using r by (intro rounds_settle) simp_all
  then show ?thesis unfolding e using r b by simp
qed

lemma remaining_empty: "remaining items p = [] \<Longrightarrow> pc p = Returned \<or> pc p = CancelledOut"
  by (cases "pc p") (simp_all add: remaining_def)

text \<open>
  A producer that is not cancelled, with a handler that keeps taking items, returns: after
  more rounds than there are groups, the handler has taken every group in order and then
  the marker, and the queue is empty. These are the items \<open>queue_items\<close> gives the handler.
\<close>

lemma drained_producer_returns:
  assumes "length items < k"
  shows "pc (run_events items (drain k) (new_producer n)) = Returned
     \<and> enqueued (run_events items (drain k) (new_producer n)) = map Some items @ [None]
     \<and> dequeued (run_events items (drain k) (new_producer n)) = map Some items @ [None]
     \<and> queue (run_events items (drain k) (new_producer n)) = []
     \<and> markers (run_events items (drain k) (new_producer n)) = 1"
proof -
  let ?p = "run_events items (drain k) (new_producer n)"
  have d: "on_course items ?p" "backlog items ?p = 0"
    using drain_settles[of items k n] assms by simp_all
  then have r: "remaining items ?p = []" and q: "queue ?p = []" by (simp_all add: backlog_def)
  have pc: "pc ?p = Returned" using remaining_empty[OF r] d(1) by (simp add: on_course_def)
  have e: "enqueued ?p = map Some items @ [None]" "dequeued ?p = enqueued ?p"
    using d(1) r q by (simp_all add: on_course_def)
  have m: "markers ?p = 1"
    using at_most_one_marker[of items "drain k" n] pc by simp
  show ?thesis using pc e q m by simp
qed

lemma uncancelled_on_course:
  "Cancel \<notin> set evs \<Longrightarrow> on_course items p \<Longrightarrow> on_course items (run_events items evs p)"
proof (induction evs arbitrary: p)
  case Nil
  then show ?case by (simp add: run_events_def)
next
  case (Cons ev evs)
  have s: "on_course items (step items ev p)"
  proof (cases ev)
    case Run
    then show ?thesis using on_course_run[OF Cons.prems(2)] by simp
  next
    case Get
    then show ?thesis using on_course_get[OF Cons.prems(2)] by simp
  next
    case Cancel
    then show ?thesis using Cons.prems(1) by simp
  qed
  have "Cancel \<notin> set evs" using Cons.prems(1) by simp
  then have "on_course items (run_events items evs (step items ev p))" using s by (rule Cons.IH)
  then show ?case by (simp add: run_events_def)
qed

text \<open>
  Without a cancellation, under any schedule, what has been put and what is still to put
  make up the groups followed by the marker, and the queue hands items on in the order
  they were put.
\<close>

lemma uncancelled_producer_order:
  assumes "Cancel \<notin> set evs"
  shows "enqueued (run_events items evs (new_producer n)) @ remaining items (run_events items evs (new_producer n))
       = map Some items @ [None]
     \<and> dequeued (run_events items evs (new_producer n)) @ queue (run_events items evs (new_producer n))
       = enqueued (run_events items evs (new_producer n))
     \<and> (pc (run_events items evs (new_producer n)) = Returned \<longrightarrow>
          enqueued (run_events items evs (new_producer n)) = map Some items @ [None])"
proof -
  have c: "on_course items (run_events items evs (new_producer n))"
    using uncancelled_on_course[OF assms on_course_new] .
  then show ?thesis by (auto simp add: on_course_def remaining_def)
qed

text \<open>
  A producer cancelled while it waits to put a group waits again in the \<^verbatim>\<open>finally\<close>
  clause, with nothing added to the queue, for as long as no item is taken.
\<close>

lemma cancelled_on_full_queue_waits:
  assumes "pc p = AwaitPutItem g gs" and "full p"
  shows "pc (step items Run (step items Cancel p)) = AwaitPutMarker
     \<and> enqueued (step items Run (step items Cancel p)) = enqueued p
     \<and> queue (step items Run (step items Cancel p)) = queue p
     \<and> step items Run (step items Run (step items Cancel p)) = step items Run (step items Cancel p)"
  using assms by (simp add: put_marker_def producer_info_def full_def)

text \<open>
  So the items the handler takes from the queue of an uncancelled producer are those of
  \<open>queue_items\<close>, whatever the capacity.
\<close>

lemma handler_reads_queue_items:
  "dequeued (run_events (tick_groups dumps_record df) (drain (Suc (length (tick_groups dumps_record df))))
      (new_producer n)) = queue_items dumps_record df"
  using drained_producer_returns [of "tick_groups dumps_record df" "Suc (length (tick_groups dumps_record df))" n]
  by (simp add: queue_items_def)

text \<open>
  C3. For every table whose rows all have a timestamp, the tick groups the producer puts
  on the queue are the groups of \<^verbatim>\<open>groupby\<close> with their rows serialized and counted,
  and a producer left to run hands exactly these to the handler, in order, before the
  marker. The counts add up to the number of rows; every row is in exactly one group (the
  groups together hold the rows, and their messages the rows' serializations, each as
  often as the table does); no group is empty; all rows of a group have the group's
  timestamp; and the groups' timestamps ascend, none repeated.
\<close>

theorem tick_groups_partition:
  assumes "\<forall>r \<in> set df. timestamp r \<noteq> None"
  shows "let groups = groupby_timestamp (sort_values df);
             items = tick_groups dumps_record (sort_values df)
         in items = map (\<lambda>(ts, group). (ts, map dumps_record group, length group)) groups
            \<and> dequeued (run_events items (drain (Suc (length items))) (new_producer max_queue_size))
                = map Some items @ [None]
            \<and> sum_list (map group_count items) = length df
            \<and> mset (concat (map snd groups)) = mset df
            \<and> mset (concat (map group_messages items)) = mset (map dumps_record df)
            \<and> (\<forall>(ts, group) \<in> set groups. group \<noteq> [] \<and> (\<forall>r \<in> set group. timestamp r = Some ts))
            \<and> sorted (map group_timestamp items) \<and> distinct (map group_timestamp items)"
proof -
  have t: "filter (\<lambda>r. timestamp r \<noteq> None) df = df" using assms by simp
  have q: "dequeued (run_events (tick_groups dumps_record (sort_values df))
              (drain (Suc (length (tick_groups dumps_record (sort_values df)))))
              (new_producer max_queue_size))
      = map Some (tick_groups dumps_record (sort_values df)) @ [None]"
    using drained_producer_returns [of "tick_groups dumps_record (sort_values df)"
        "Suc (length (tick_groups dumps_record (sort_values df)))" max_queue_size]
    by simp
  note c = tick_groups_cover [where df = df and dumps_record = dumps_record, unfolded Let_def t]
  show ?thesis
    unfolding Let_def using c q by (elim conjE, intro conjI) assumption+
qed

text \<open>An instance of C3: the scenario's three records, and a queue of capacity one.\<close>

theorem tick_groups_partition_witness:
  "list_all (\<lambda>r. timestamp r \<noteq> None) example_df
   \<and> set (groupby_timestamp (sort_values example_df)) \<noteq> {}
   \<and> tick_groups payload (sort_values example_df) = [(0, [''A'', ''B''], 2), (2000000000, [''C''], 1)]
   \<and> dequeued (run_events [(0, [''A'', ''B''], 2), (2000000000, [''C''], 1)] (drain 3) (new_producer 1))
       = [Some (0, [''A'', ''B''], 2), Some (2000000000, [''C''], 1), None]
   \<and> sum_list (map group_count (tick_groups payload (sort_values example_df))) = length example_df
   \<and> mset (concat (map snd (groupby_timestamp (sort_values example_df)))) = mset example_df
   \<and> sorted (map group_timestamp (tick_groups payload (sort_values example_df)))"
proof -
  have a: "\<forall>r \<in> set example_df. timestamp r \<noteq> None" by (simp add: example_df_def)
  have la: "list_all (\<lambda>r. timestamp r \<noteq> None) example_df" by (simp add: example_df_def)
  have g: "set (groupby_timestamp (sort_values example_df)) \<noteq> {}"
    by (simp add: example_groups(1) groupby_timestamp_def group_keys_def)
  note th = tick_groups_partition [OF a, where dumps_record = payload and max_queue_size = 1,
      unfolded Let_def]
  have q: "dequeued (run_events (tick_groups payload (sort_values example_df))
              (drain (Suc (length (tick_groups payload (sort_values example_df))))) (new_producer 1))
      = map Some (tick_groups payload (sort_values example_df)) @ [None]"
    by (rule conjunct1 [OF conjunct2 [OF th]])
  have s: "sum_list (map group_count (tick_groups payload (sort_values example_df))) = length example_df"
    by (rule conjunct1 [OF conjunct2 [OF conjunct2 [OF th]]])
  have m: "mset (concat (map snd (groupby_timestamp (sort_values example_df)))) = mset example_df"
    by (rule conjunct1 [OF conjunct2 [OF conjunct2 [OF conjunct2 [OF th]]]])
  have d: "drain (Suc (length [(0::int, [''A'', ''B''], 2::nat), (2000000000, [''C''], 1)])) = drain 3"
    by (simp add: eval_nat_numeral)
  have q': "dequeued (run_events [(0, [''A'', ''B''], 2), (2000000000, [''C''], 1)] (drain 3) (new_producer 1))
       = [Some (0, [''A'', ''B''], 2), Some (2000000000, [''C''], 1), None]"
    using q unfolding example_groups(2) d by simp
  show ?thesis
    using la g s m q' by (simp add: example_groups(2))
qed

section \<open>The handler: pacing, frames and control messages\<close>

lemma sent_append: "sent (es @ fs) = sent es @ sent fs"
  by (induction es rule: sent.induct) simp_all

lemma slept_append: "slept (es @ fs) = slept es @ slept fs"
  by (induction es rule: slept.induct) simp_all

lemma logged_append: "logged (es @ fs) = logged es @ logged fs"
  by (induction es rule: logged.induct) simp_all

lemma websocket_send_frame:
  "latencies (snd (websocket_send m h)) = latencies h
   \<and> ticks (snd (websocket_send m h)) = ticks h
   \<and> producer_task (snd (websocket_send m h)) = producer_task h
   \<and> slept (effects (snd (websocket_send m h))) = slept (effects h)
   \<and> logged (effects (snd (websocket_send m h))) = logged (effects h)"
  by (simp add: websocket_send_def emit_def slept_append logged_append split: option.splits nat.splits)

lemma gather_send_frame:
  "latencies (snd (gather_send ms h)) = latencies h
   \<and> ticks (snd (gather_send ms h)) = ticks h
   \<and> producer_task (snd (gather_send ms h)) = producer_task h
   \<and> slept (effects (snd (gather_send ms h))) = slept (effects h)
   \<and> logged (effects (snd (gather_send ms h))) = logged (effects h)"
proof (induction ms arbitrary: h)
  case Nil
  show ?case by simp
next
  case (Cons m ms)
  obtain r h' where s: "websocket_send m h = (r, h')" by (cases "websocket_send m h")
  show ?case using s Cons.IH[of h'] websocket_send_frame[of m h]
    by (cases r) simp_all
qed

lemma gather_send_wire:
  "sent (effects (snd (gather_send ms h)))
     = sent (effects h) @ (case closes_after h of None \<Rightarrow> ms | Some k \<Rightarrow> take k ms)"
proof (induction ms arbitrary: h)
  case Nil
  then show ?case by (simp split: option.splits)
next
  case (Cons m ms)
  show ?case
  proof (cases "closes_after h")
    case None
    then show ?thesis using Cons.IH[of "emit (Send m) h"]
      by (simp add: websocket_send_def emit_def sent_append)
  next
    case (Some k)
    show ?thesis
    proof (cases k)
      case 0
      then show ?thesis using Some by (simp add: websocket_send_def)
    next
      case (Suc j)
      then show ?thesis using Some Cons.IH[of "(emit (Send m) h)\<lparr>closes_after := Some j\<rparr>"]
        by (simp add: websocket_send_def emit_def sent_append)
    qed
  qed
qed

lemma gather_send_ok:
  "fst (gather_send ms h) = None \<longleftrightarrow> (case closes_after h of None \<Rightarrow> True | Some k \<Rightarrow> length ms \<le> k)"
proof (induction ms arbitrary: h)
  case Nil
  then show ?case by (simp split: option.splits)
next
  case (Cons m ms)
  show ?case
  proof (cases "closes_after h")
    case None
    then show ?thesis using Cons.IH[of "emit (Send m) h"]
      by (simp add: websocket_send_def emit_def)
  next
    case (Some k)
    show ?thesis
    proof (cases k)
      case 0
      then show ?thesis using Some by (simp add: websocket_send_def)
    next
      case (Suc j)
      then show ?thesis using Some Cons.IH[of "(emit (Send m) h)\<lparr>closes_after := Some j\<rparr>"]
        by (simp add: websocket_send_def emit_def)
    qed
  qed
qed

lemma gather_send_raises: "fst (gather_send ms h) = Some e \<Longrightarrow> e = ConnectionClosed"
proof (induction ms arbitrary: h)
  case Nil
  then show ?case by simp
next
  case (Cons m ms)
  obtain r h' where s: "websocket_send m h = (r, h')" by (cases "websocket_send m h")
  show ?case
  proof (cases r)
    case None
    then show ?thesis using s Cons by simp
  next
    case (Some x)
    then have "x = ConnectionClosed" using s by (auto simp add: websocket_send_def split: option.splits nat.splits)
    then show ?thesis using s Some Cons.prems by simp
  qed
qed


lemma gather_send_effects:
  "closes_after h = None \<Longrightarrow> gather_send ms h = (None, h\<lparr>effects := effects h @ map Send ms\<rparr>)"
  by (induction ms arbitrary: h) (simp_all add: websocket_send_def emit_def)

lemma pace_group_open:
  assumes "closes_after h = None"
  shows "pace_group ar clock start first g h
     = (None, h\<lparr>effects := effects h @ paced_effects ar clock start first (ticks h) g,
                ticks := Suc (Suc (ticks h)),
                latencies := latencies h @ [latency_at ar clock start first (ticks h) g]\<rparr>)"
proof -
  obtain ts messages num where g: "g = (ts, messages, num)" by (cases g)
  let ?delay = "fsub ar (fadd ar start (total_seconds ar (ts - first))) (clock (ticks h))"
  let ?h2 = "if 0 < ?delay then emit (Sleep ?delay) (tick h) else tick h"
  let ?h4 = "(tick ?h2)\<lparr>latencies := latencies ?h2
      @ [fsub ar (loop_time clock ?h2) (fadd ar start (total_seconds ar (ts - first)))]\<rparr>"
  have o: "closes_after ?h4 = None" using assms by (simp add: emit_def tick_def)
  have gs: "gather_send messages ?h4 = (None, ?h4\<lparr>effects := effects ?h4 @ map Send messages\<rparr>)"
    using o by (rule gather_send_effects)
  have pg: "pace_group ar clock start first (ts, messages, num) h
      = (None, emit (Log (if ?delay < 0 then SentLagging num ts (- ?delay) else SentWait num ts ?delay))
           (?h4\<lparr>effects := effects ?h4 @ map Send messages\<rparr>))"
    using gs by (simp add: Let_def loop_time_def)
  show ?thesis
    unfolding g pg
    by (simp add: loop_time_def emit_def tick_def paced_effects_def paced_sleep_def pace_log_def
        delay_at_def latency_at_def target_send_time_def)
qed

lemma enumerate_shift:
  "map (\<lambda>(i, g). F i g) (enumerate (Suc n) gs) = map (\<lambda>(i, g). F (Suc i) g) (enumerate n gs)"
  by (induction gs arbitrary: n) simp_all

lemma pacer_loop_open:
  "closes_after h = None \<Longrightarrow>
     pacer_loop ar clock start first (map Some gs @ [None]) h
       = (Through,
          h\<lparr>effects := effects h
               @ concat (map (\<lambda>(i, g). paced_effects ar clock start first (ticks h + 2 * i) g)
                          (enumerate 0 gs)),
            ticks := ticks h + 2 * length gs,
            latencies := latencies h
               @ map (\<lambda>(i, g). latency_at ar clock start first (ticks h + 2 * i) g)
                   (enumerate 0 gs)\<rparr>)"
proof (induction gs arbitrary: h)
  case Nil
  then show ?case by simp
next
  case (Cons g gs)
  let ?h' = "h\<lparr>effects := effects h @ paced_effects ar clock start first (ticks h) g,
                ticks := Suc (Suc (ticks h)),
                latencies := latencies h @ [latency_at ar clock start first (ticks h) g]\<rparr>"
  have p: "pace_group ar clock start first g h = (None, ?h')"
    using Cons.prems by (rule pace_group_open)
  have o: "closes_after ?h' = None" using Cons.prems by simp
  have e: "map (\<lambda>(i, g). paced_effects ar clock start first (ticks h + 2 * i) g) (enumerate (Suc 0) gs)
      = map (\<lambda>(i, g). paced_effects ar clock start first (Suc (Suc (ticks h)) + 2 * i) g) (enumerate 0 gs)"
    using enumerate_shift [of "\<lambda>i g. paced_effects ar clock start first (ticks h + 2 * i) g" 0 gs]
    by simp
  have l: "map (\<lambda>(i, g). latency_at ar clock start first (ticks h + 2 * i) g) (enumerate (Suc 0) gs)
      = map (\<lambda>(i, g). latency_at ar clock start first (Suc (Suc (ticks h)) + 2 * i) g) (enumerate 0 gs)"
    using enumerate_shift [of "\<lambda>i g. latency_at ar clock start first (ticks h + 2 * i) g" 0 gs]
    by simp
  show ?case using p Cons.IH [OF o] by (simp add: e l)
qed

lemma replay_trades_empty_wire:
  "sent (effects (snd (replay_trades ar dumps dumps_record clock trade_file (Table []) closes)))
     = (case closes of
          None \<Rightarrow> [dumps (status_message ''Data loaded. Starting replay.''), dumps (status_message ''Replay finished.'')]
        | Some k \<Rightarrow> take k [dumps (status_message ''Data loaded. Starting replay.''), dumps (status_message ''Replay finished.'')])
   \<and> fst (replay_trades ar dumps dumps_record clock trade_file (Table []) closes) = SessionEnded"
  by (simp add: replay_trades_def replay_body_def send_then_def websocket_send_def replay_items_def
      queue_items_def tick_groups_def groupby_timestamp_def group_keys_def sort_values_def
      emit_def new_handler_def finally_clause_def on_exception_def
      split: option.splits nat.splits)

lemma replay_trades_read_failure:
  "file = FileNotFoundError \<or> file = ReadError e \<Longrightarrow> closes \<noteq> Some 0 \<Longrightarrow>
     fst (replay_trades ar dumps dumps_record clock trade_file file closes) = SessionEnded
     \<and> sent (effects (snd (replay_trades ar dumps dumps_record clock trade_file file closes)))
         = [dumps (error_message (case file of FileNotFoundError \<Rightarrow> ''File not found: '' @ trade_file
                                   | _ \<Rightarrow> ''Could not read trade data.''))]
     \<and> CreateProducer \<notin> set (effects (snd (replay_trades ar dumps dumps_record clock trade_file file closes)))"
  by (auto simp add: replay_trades_def replay_body_def send_then_def websocket_send_def
      emit_def new_handler_def finally_clause_def on_exception_def
      split: option.splits nat.splits)

lemma replay_trades_no_groups:
  assumes "tick_groups dumps_record (sort_values df) = []"
  shows "replay_trades ar dumps dumps_record clock trade_file (Table df) None
     = (SessionEnded,
        \<lparr>effects =
           [Log ClientConnected, CreateProducer,
            Send (dumps (status_message ''Data loaded. Starting replay.'')),
            Log NoTradesToReplay, Send (dumps (status_message ''Replay finished.'')),
            CancelProducer, Log HandlerFinished],
         closes_after = None, ticks = 0, latencies = [], producer_task = True\<rparr>)"
  using assms
  by (simp add: replay_trades_def replay_body_def send_then_def websocket_send_def replay_items_def
      queue_items_def emit_def new_handler_def finally_clause_def)

lemma replay_trades_groups:
  assumes "tick_groups dumps_record (sort_values df) = g0 # gs"
  shows "replay_trades ar dumps dumps_record clock trade_file (Table df) None
     = (SessionEnded,
        \<lparr>effects =
           [Log ClientConnected, CreateProducer,
            Send (dumps (status_message ''Data loaded. Starting replay.''))]
           @ map Send (group_messages g0)
           @ [Log (SentInitial (group_count g0) (group_timestamp g0))]
           @ concat (map (\<lambda>(i, g). paced_effects ar clock (clock 0) (group_timestamp g0) (1 + 2 * i) g)
                      (enumerate 0 gs))
           @ [Log ReplayFinished, Send (dumps (status_message ''Replay finished.'')),
              Log (latency_report ar
                     (map (\<lambda>(i, g). latency_at ar clock (clock 0) (group_timestamp g0) (1 + 2 * i) g)
                        (enumerate 0 gs))),
              CancelProducer, Log HandlerFinished],
         closes_after = None,
         ticks = 1 + 2 * length gs,
         latencies = map (\<lambda>(i, g). latency_at ar clock (clock 0) (group_timestamp g0) (1 + 2 * i) g)
                       (enumerate 0 gs),
         producer_task = True\<rparr>)"
proof -
  obtain ts0 ms0 n0 where g0: "g0 = (ts0, ms0, n0)" by (cases g0)
  let ?h1 = "\<lparr>effects = [Log ClientConnected, CreateProducer,
                 Send (dumps (status_message ''Data loaded. Starting replay.''))],
              closes_after = None, ticks = 0, latencies = [], producer_task = True\<rparr>"
  let ?h2 = "\<lparr>effects = [Log ClientConnected, CreateProducer,
                 Send (dumps (status_message ''Data loaded. Starting replay.''))]
                 @ map Send ms0 @ [Log (SentInitial n0 ts0)],
              closes_after = None, ticks = Suc 0, latencies = [], producer_task = True\<rparr>"
  have o1: "closes_after (tick ?h1) = None" by (simp add: tick_def)
  have gs1: "gather_send ms0 (tick ?h1)
      = (None, (tick ?h1)\<lparr>effects := effects (tick ?h1) @ map Send ms0\<rparr>)"
    using o1 by (rule gather_send_effects)
  have o2: "closes_after ?h2 = None" by simp
  note pl = pacer_loop_open [OF o2, of ar clock "clock 0" ts0 gs]
  have ri: "replay_items ar dumps clock (queue_items dumps_record (sort_values df)) ?h1
      = (Through,
         log_latency ar
           (emit (Send (dumps (status_message ''Replay finished.'')))
              (emit (Log ReplayFinished)
                 (?h2\<lparr>effects := effects ?h2
                         @ concat (map (\<lambda>(i, g). paced_effects ar clock (clock 0) ts0 (ticks ?h2 + 2 * i) g)
                                    (enumerate 0 gs)),
                       ticks := ticks ?h2 + 2 * length gs,
                       latencies := latencies ?h2
                         @ map (\<lambda>(i, g). latency_at ar clock (clock 0) ts0 (ticks ?h2 + 2 * i) g)
                             (enumerate 0 gs)\<rparr>))))"
    using assms g0 gs1 pl
    by (simp add: replay_items_def queue_items_def Let_def loop_time_def tick_def emit_def
        send_then_def websocket_send_def)
  show ?thesis
    using ri g0
    by (simp add: replay_trades_def replay_body_def send_then_def websocket_send_def emit_def
        new_handler_def finally_clause_def log_latency_def)
qed

lemma sent_map_Send: "sent (map Send ms) = ms"
  by (induction ms) simp_all

lemma slept_map_Send: "slept (map Send ms) = []"
  by (induction ms) simp_all

lemma logged_map_Send: "logged (map Send ms) = []"
  by (induction ms) simp_all

lemma sent_map_Sleep: "sent (map Sleep ds) = []"
  by (induction ds) simp_all

lemma slept_map_Sleep: "slept (map Sleep ds) = ds"
  by (induction ds) simp_all

lemma logged_map_Sleep: "logged (map Sleep ds) = []"
  by (induction ds) simp_all

lemma paced_effects_parts:
  "sent (paced_effects ar clock start first k g) = group_messages g"
  "slept (paced_effects ar clock start first k g) = paced_sleep ar clock start first k g"
  "logged (paced_effects ar clock start first k g) = [pace_log ar clock start first k g]"
  by (simp_all add: paced_effects_def sent_append slept_append logged_append
      sent_map_Send slept_map_Send logged_map_Send sent_map_Sleep slept_map_Sleep logged_map_Sleep)

lemma sent_paced_run:
  "sent (concat (map (\<lambda>(i, g). paced_effects ar clock start first (F i) g) (enumerate n gs)))
     = concat (map group_messages gs)"
  by (induction gs arbitrary: n) (simp_all add: sent_append paced_effects_parts)



lemma replay_trades_open:
  "fst (replay_trades ar dumps dumps_record clock trade_file (Table df) None) = SessionEnded
   \<and> sent (effects (snd (replay_trades ar dumps dumps_record clock trade_file (Table df) None)))
      = dumps (status_message ''Data loaded. Starting replay.'')
        # concat (map group_messages (tick_groups dumps_record (sort_values df)))
        @ [dumps (status_message ''Replay finished.'')]"
proof (cases "tick_groups dumps_record (sort_values df)")
  case Nil
  show ?thesis
    unfolding replay_trades_no_groups [OF Nil] using Nil by simp
next
  case (Cons g0 gs)
  show ?thesis
    unfolding replay_trades_groups [OF Cons] using Cons
    by (simp add: sent_append sent_map_Send sent_paced_run)
qed







text \<open>
  C5. Sending a group puts its messages on the wire in the group's order: all of them
  when the connection accepts that many frames, and in any case the first \<open>k\<close> of them
  when the connection closes after \<open>k\<close> frames. Over a whole replay on a connection that
  stays open, the wire holds the loaded status, then every group's messages in order,
  group after group, then the finished status.
\<close>

theorem group_sent_in_order:
  "((case closes_after h of None \<Rightarrow> True | Some k \<Rightarrow> length messages \<le> k) \<longrightarrow>
      fst (gather_send messages h) = None
      \<and> sent (effects (snd (gather_send messages h))) = sent (effects h) @ messages)
   \<and> sent (effects (snd (gather_send messages h)))
       = sent (effects h) @ (case closes_after h of None \<Rightarrow> messages | Some k \<Rightarrow> take k messages)
   \<and> sent (effects (snd (replay_trades ar dumps dumps_record clock trade_file (Table df) None)))
       = dumps (status_message ''Data loaded. Starting replay.'')
         # concat (map group_messages (tick_groups dumps_record (sort_values df)))
         @ [dumps (status_message ''Replay finished.'')]"
  using gather_send_wire [of messages h] gather_send_ok [of messages h]
    replay_trades_open [of ar dumps dumps_record clock trade_file df]
  by (simp split: option.splits)

text \<open>An instance of C5: two messages on a connection that accepts two frames.\<close>

theorem group_sent_in_order_witness:
  "(case closes_after (new_handler (Some 2)) of None \<Rightarrow> True | Some k \<Rightarrow> length [''A'', ''B''] \<le> k)
   \<and> fst (gather_send [''A'', ''B''] (new_handler (Some 2))) = None
   \<and> sent (effects (snd (gather_send [''A'', ''B''] (new_handler (Some 2))))) = [''A'', ''B'']"
proof -
  have a: "case closes_after (new_handler (Some 2)) of None \<Rightarrow> True | Some k \<Rightarrow> length [''A'', ''B''] \<le> k"
    by (simp add: new_handler_def)
  have e: "sent (effects (new_handler (Some 2))) = []" by (simp add: new_handler_def)
  show ?thesis
    using a e group_sent_in_order [where h = "new_handler (Some 2)" and messages = "[''A'', ''B'']"
        and ar = exact_arith and dumps = example_dumps and dumps_record = payload
        and clock = "readings [10]" and trade_file = "''trades_sample.parquet''" and df = "[]"]
    by simp
qed

text \<open>
  C6. For an empty table, on a connection that accepts at least two frames, the handler
  ends the session having sent the loaded status and then the finished status, and
  nothing else.
\<close>

theorem empty_dataset_messages:
  "(case closes of None \<Rightarrow> True | Some k \<Rightarrow> 2 \<le> k) \<Longrightarrow>
     fst (replay_trades ar dumps dumps_record clock trade_file (Table []) closes) = SessionEnded
     \<and> sent (effects (snd (replay_trades ar dumps dumps_record clock trade_file (Table []) closes)))
        = [dumps (status_message ''Data loaded. Starting replay.''),
           dumps (status_message ''Replay finished.'')]"
  using replay_trades_empty_wire [of ar dumps dumps_record clock trade_file closes]
  by (simp split: option.splits)

text \<open>An instance of C6: a connection that closes after two frames.\<close>

theorem empty_dataset_messages_witness:
  "(case Some (2::nat) of None \<Rightarrow> True | Some k \<Rightarrow> 2 \<le> k)
   \<and> sent (effects (snd (replay_trades exact_arith example_dumps payload (readings [10])
        ''trades_sample.parquet'' (Table []) (Some 2))))
      = [''status: Data loaded. Starting replay.'', ''status: Replay finished.'']"
proof -
  have a: "case Some (2::nat) of None \<Rightarrow> True | Some k \<Rightarrow> 2 \<le> k" by simp
  show ?thesis
    using a empty_dataset_messages [OF a, where ar = exact_arith and dumps = example_dumps
        and dumps_record = payload and clock = "readings [10]"
        and trade_file = "''trades_sample.parquet''"]
    by (simp add: example_dumps_def status_message_def)
qed

text \<open>
  C8. When the trade file is missing, or reading it fails otherwise, and the connection
  accepts a frame, the handler sends one frame, an object with an \<^verbatim>\<open>error\<close> key, and no
  other; it never creates the producer; and it returns, so that only this session ends.
\<close>

theorem read_failure_reported:
  assumes "file = FileNotFoundError \<or> file = ReadError e" and "closes \<noteq> Some 0"
  shows "fst (replay_trades ar dumps dumps_record clock trade_file file closes) = SessionEnded
     \<and> sent (effects (snd (replay_trades ar dumps dumps_record clock trade_file file closes)))
         = [dumps (error_message (case file of FileNotFoundError \<Rightarrow> ''File not found: '' @ trade_file
                                   | _ \<Rightarrow> ''Could not read trade data.''))]
     \<and> error_field (error_message (case file of FileNotFoundError \<Rightarrow> ''File not found: '' @ trade_file
                                   | _ \<Rightarrow> ''Could not read trade data.'')) \<noteq> None
     \<and> CreateProducer \<notin> set (effects (snd (replay_trades ar dumps dumps_record clock trade_file file closes)))"
  using replay_trades_read_failure [OF assms] by (simp add: error_message_def)

text \<open>An instance of C8: the file is missing, and the read fails, on an open connection.\<close>

theorem read_failure_reported_witness:
  "(FileNotFoundError :: string parquet) = FileNotFoundError
   \<and> (None :: nat option) \<noteq> Some 0
   \<and> replay_trades exact_arith example_dumps payload (readings [10]) ''trades.parquet''
        (FileNotFoundError :: string parquet) None
       = (SessionEnded,
          \<lparr>effects = [Log ClientConnected, Log (TradeFileNotFound ''trades.parquet''),
                      Send ''error: File not found: trades.parquet'', Log HandlerFinished],
           closes_after = None, ticks = 0, latencies = [], producer_task = False\<rparr>)
   \<and> sent (effects (snd (replay_trades exact_arith example_dumps payload (readings [10]) ''trades.parquet''
        (ReadError ''bad magic'' :: string parquet) None)))
       = [''error: Could not read trade data.'']"
proof -
  have b: "(None :: nat option) \<noteq> Some 0" by simp
  have c: "(ReadError ''bad magic'' :: string parquet) = FileNotFoundError
      \<or> (ReadError ''bad magic'' :: string parquet) = ReadError ''bad magic''"
    by simp
  have r: "replay_trades exact_arith example_dumps payload (readings [10]) ''trades.parquet''
        (FileNotFoundError :: string parquet) None
       = (SessionEnded,
          \<lparr>effects = [Log ClientConnected, Log (TradeFileNotFound ''trades.parquet''),
                      Send ''error: File not found: trades.parquet'', Log HandlerFinished],
           closes_after = None, ticks = 0, latencies = [], producer_task = False\<rparr>)"
    by (simp add: replay_trades_def replay_body_def send_then_def websocket_send_def emit_def
        new_handler_def finally_clause_def example_dumps_def error_message_def)
  show ?thesis
    using b r read_failure_reported [OF c b, where ar = exact_arith and dumps = example_dumps
        and dumps_record = payload and clock = "readings [10]" and trade_file = "''trades.parquet''"]
    by (simp add: example_dumps_def error_message_def)
qed

text \<open>
  The scenario end to end, on an open connection and a clock that reads 0, 1, 2: \<open>A\<close> and
  \<open>B\<close> go out at once, the handler sleeps until \<open>C\<close> is due two seconds after the start,
  and the finished status ends the replay.
\<close>

lemma scenario_replay:
  "replay_trades exact_arith example_dumps payload real ''trades_sample.parquet'' (Table example_df) None
     = (SessionEnded,
        \<lparr>effects =
           [Log ClientConnected, CreateProducer,
            Send ''status: Data loaded. Starting replay.'',
            Send ''A'', Send ''B'', Log (SentInitial 2 0),
            Sleep 1, Send ''C'', Log (SentWait 1 2000000000 1),
            Log ReplayFinished, Send ''status: Replay finished.'', Log (AverageLatency 0),
            CancelProducer, Log HandlerFinished],
         closes_after = None, ticks = 3, latencies = [0], producer_task = True\<rparr>)"
  unfolding replay_trades_groups [OF example_groups(2)]
  by (simp add: paced_effects_def paced_sleep_def pace_log_def delay_at_def latency_at_def
      target_send_time_def latency_report_def exact_arith_def example_dumps_def status_message_def)

end
